theory Spec2Isabelle
  imports Main "HOL-Library.AList"
begin

section \<open>Strings and paths\<close>

text \<open>
  JavaScript strings are modelled as \<^typ>\<open>string\<close>, one \<^typ>\<open>char\<close> per code unit in the
  range 0..255. \<open>String.prototype.trim\<close> removes white space at both ends; in that range
  the white-space code units are tab, line feed, vertical tab, form feed, carriage return,
  space and no-break space.
\<close>

definition isWhiteSpace :: "char \<Rightarrow> bool" where
  "isWhiteSpace c = (of_char c \<in> {9, 10, 11, 12, 13, 32, 160 :: nat})"

definition trim :: "string \<Rightarrow> string" where
  "trim s = rev (dropWhile isWhiteSpace (rev (dropWhile isWhiteSpace s)))"

text \<open>
  \<open>s.split(c)\<close> for a one-character separator: the pieces between the separators, at least
  one piece. \<open>xs.join(sep)\<close> puts the separator between the pieces.
\<close>

fun splitOn :: "char \<Rightarrow> string \<Rightarrow> string list" where
  "splitOn c [] = [[]]"
| "splitOn c (x # xs) =
     (if x = c then [] # splitOn c xs
      else (x # hd (splitOn c xs)) # tl (splitOn c xs))"

fun joinWith :: "string \<Rightarrow> string list \<Rightarrow> string" where
  "joinWith sep [] = []"
| "joinWith sep [s] = s"
| "joinWith sep (s # t # ts) = s @ sep @ joinWith sep (t # ts)"

text \<open>
  \<open>normalizePath\<close> of \<open>src/types/lexicon.ts\<close>: trim, split on the slash, drop the empty
  and the \<open>.\<close> segments, let \<open>..\<close> pop the last kept segment (\<open>Array.prototype.pop\<close> on
  an empty array does nothing), and join with slashes.
\<close>

definition normalizePath :: "string \<Rightarrow> string" where
  "normalizePath path =
     (let normalized = trim path;
          segments = filter (\<lambda>s. s \<noteq> [] \<and> s \<noteq> ''.'') (splitOn CHR ''/'' normalized);
          result = foldl (\<lambda>result segment.
                      if segment = ''..'' then butlast result else result @ [segment])
                    [] segments
      in joinWith ''/'' result)"

text \<open>
  One step of the loop of \<open>normalizePath\<close>, and the list of segments it builds.
\<close>

definition popOrPush :: "string list \<Rightarrow> string \<Rightarrow> string list" where
  "popOrPush result segment = (if segment = ''..'' then butlast result else result @ [segment])"


definition pathSegments :: "string \<Rightarrow> string list" where
  "pathSegments path = foldl popOrPush []
     (filter (\<lambda>s. s \<noteq> [] \<and> s \<noteq> ''.'') (splitOn CHR ''/'' (trim path)))"


section \<open>The virtual file system\<close>

text \<open>
  \<open>WispFile\<close> and \<open>WispDirectory\<close> of \<open>src/types/lexicon.ts\<close>. The objects \<open>files\<close> and
  \<open>dirs\<close> are records from names to entries; each is optional. An object is modelled as the
  list of its entries in the order of \<open>Object.entries\<close>, \<open>None\<close> standing for an absent
  (\<open>undefined\<close>) field, and a property read \<open>obj[name]\<close> as \<^const>\<open>map_of\<close>. An object has
  every key once; names that Object.prototype defines (such as \<open>constructor\<close>) are outside
  the model.
\<close>

datatype WispFile = WispFile (cid: string) (mimeType: "string option") (fileSize: "nat option")

datatype WispDirectory =
  WispDirectory (files: "(string \<times> WispFile) list option")
                (dirs: "(string \<times> WispDirectory) list option")

datatype PathResolution =
  FileLookupResult string string
  | DirectoryLookupResult "(string \<times> WispFile) list" "string list"

text \<open>
  A read \<open>obj?.[name]\<close> of an optional object.
\<close>

definition entryOf :: "(string \<times> 'a) list option \<Rightarrow> string \<Rightarrow> 'a option" where
  "entryOf obj name = (case obj of None \<Rightarrow> None | Some entries \<Rightarrow> map_of entries name)"

text \<open>
  The traversal loop shared by \<open>lookupPath\<close> and by the service worker's \<open>lookupFile\<close>:
  follow \<open>dirs\<close> along the segments, \<open>null\<close> as soon as one is missing.
\<close>

fun walkDirs :: "WispDirectory \<Rightarrow> string list \<Rightarrow> WispDirectory option" where
  "walkDirs current [] = Some current"
| "walkDirs current (segment # rest) =
     (case dirs current of
        None \<Rightarrow> None
      | Some ds \<Rightarrow>
          (case map_of ds segment of
             None \<Rightarrow> None
           | Some sub \<Rightarrow> walkDirs sub rest))"

text \<open>
  \<open>lookupPath\<close> of \<open>src/types/lexicon.ts\<close>. The result \<open>null\<close> is \<open>None\<close>. A file result
  carries the content identifier and \<open>file.mimeType || 'application/octet-stream'\<close>, where an
  empty string counts as absent.
\<close>

definition lookupPath :: "WispDirectory \<Rightarrow> string \<Rightarrow> PathResolution option" where
  "lookupPath directory path =
     (let normalizedPath = normalizePath path in
      if normalizedPath = [] then
        Some (DirectoryLookupResult
               (case files directory of None \<Rightarrow> [] | Some fs \<Rightarrow> fs)
               (map fst (case dirs directory of None \<Rightarrow> [] | Some ds \<Rightarrow> ds)))
      else
        (let segments = splitOn CHR ''/'' normalizedPath in
         case walkDirs directory (butlast segments) of
           None \<Rightarrow> None
         | Some currentDir \<Rightarrow>
             (case entryOf (files currentDir) (last segments) of
                Some file \<Rightarrow>
                  Some (FileLookupResult (cid file)
                         (case mimeType file of
                            None \<Rightarrow> ''application/octet-stream''
                          | Some m \<Rightarrow> if m = [] then ''application/octet-stream'' else m))
              | None \<Rightarrow>
                  (case entryOf (dirs currentDir) (last segments) of
                     Some subDir \<Rightarrow>
                       Some (DirectoryLookupResult
                              (case files subDir of None \<Rightarrow> [] | Some fs \<Rightarrow> fs)
                              (map fst (case dirs subDir of None \<Rightarrow> [] | Some ds \<Rightarrow> ds)))
                   | None \<Rightarrow> None))))"

section \<open>The service worker: path lookup\<close>

text \<open>
  \<open>normalizePath\<close> of the service worker: the empty path and \<open>/\<close> normalise to the empty
  path; otherwise one leading slash is removed, the path is cut at the first \<open>?\<close> or \<open>#\<close>, and
  one trailing slash is removed.
\<close>

definition swNormalizePath :: "string \<Rightarrow> string" where
  "swNormalizePath path =
     (if path = [] \<or> path = ''/'' then []
      else
        (let noLead = (case path of c # rest \<Rightarrow> if c = CHR ''/'' then rest else path | [] \<Rightarrow> path);
             normalized = takeWhile (\<lambda>c. c \<noteq> CHR ''?'' \<and> c \<noteq> CHR ''#'') noLead
         in if normalized \<noteq> [] \<and> last normalized = CHR ''/'' then butlast normalized
            else normalized))"

text \<open>
  \<open>lookupFile\<close> of the service worker. For the empty path it calls itself with the two
  index file names; a file entry is an object and so always truthy.
\<close>

function lookupFile :: "WispDirectory \<Rightarrow> string \<Rightarrow> WispFile option" where
  "lookupFile manifest path =
     (if swNormalizePath path = [] then
        (case lookupFile manifest ''index.html'' of
           Some result \<Rightarrow> Some result
         | None \<Rightarrow>
             (case lookupFile manifest ''index.htm'' of
                Some result \<Rightarrow> Some result
              | None \<Rightarrow> None))
      else
        (let segments = splitOn CHR ''/'' (swNormalizePath path) in
         case walkDirs manifest (butlast segments) of
           None \<Rightarrow> None
         | Some current \<Rightarrow> entryOf (files current) (last segments)))"
  by pat_completeness auto
termination
  by (relation "measure (\<lambda>(manifest, path). if swNormalizePath path = [] then 1 else 0)")
     (auto simp: swNormalizePath_def)

declare lookupFile.simps [simp del]

text \<open>
  A path in the service worker's normal form: not empty, no slash at either end, no query
  string and no fragment.
\<close>

definition canonicalPath :: "string \<Rightarrow> bool" where
  "canonicalPath p \<longleftrightarrow>
     p \<noteq> [] \<and> hd p \<noteq> CHR ''/'' \<and> last p \<noteq> CHR ''/'' \<and>
     CHR ''?'' \<notin> set p \<and> CHR ''#'' \<notin> set p"

text \<open>
  The vocabulary of the claim about lookup. \<open>fileAt d path name\<close> is the file entry \<open>name\<close>
  in the directory reached from \<open>d\<close> along the directory names \<open>path\<close>, and
  \<open>fileAtPath d p\<close> is the file entry that the tree maps at the path \<open>p\<close>, read as names
  separated by slashes. A plain path is one that the normalisation of \<open>lookupPath\<close> leaves as
  it is: no white space at its ends and no segment that is empty, \<open>.\<close> or \<open>..\<close>.
\<close>

definition fileAt :: "WispDirectory \<Rightarrow> string list \<Rightarrow> string \<Rightarrow> WispFile option" where
  "fileAt d path name =
     (case walkDirs d path of None \<Rightarrow> None | Some current \<Rightarrow> entryOf (files current) name)"

definition fileAtPath :: "WispDirectory \<Rightarrow> string \<Rightarrow> WispFile option" where
  "fileAtPath d p = fileAt d (butlast (splitOn CHR ''/'' p)) (last (splitOn CHR ''/'' p))"

definition plainPath :: "string \<Rightarrow> bool" where
  "plainPath p \<longleftrightarrow>
     trim p = p \<and> (\<forall>s \<in> set (splitOn CHR ''/'' p). s \<noteq> [] \<and> s \<noteq> ''.'' \<and> s \<noteq> ''..'')"

text \<open>
  The file result of \<open>lookupPath\<close> for an entry: its content identifier and
  \<open>file.mimeType || 'application/octet-stream'\<close>.
\<close>

definition fileResult :: "WispFile \<Rightarrow> PathResolution" where
  "fileResult file =
     FileLookupResult (cid file)
       (case mimeType file of
          None \<Rightarrow> ''application/octet-stream''
        | Some m \<Rightarrow> if m = [] then ''application/octet-stream'' else m)"

text \<open>
  Two small trees for concrete evaluation: a file \<open>a/b.html\<close> with content identifier
  \<open>C\<close>, and a root with both index files and one subdirectory.
\<close>

definition demoTree :: WispDirectory where
  "demoTree = WispDirectory None
     (Some [(''a'', WispDirectory (Some [(''b.html'', WispFile ''C'' None None)]) None)])"

definition indexTree :: WispDirectory where
  "indexTree = WispDirectory
     (Some [(''index.htm'', WispFile ''H'' None None), (''index.html'', WispFile ''I'' None None)])
     (Some [(''a'', WispDirectory None None)])"

text \<open>
  A tree with names that the normalisations change: files named by the empty string, by
  \<open>a?b\<close>, by \<open>a#b\<close>, by \<open>.\<close>, by \<open>..\<close> and by a name with a leading space, a
  directory named by the empty string and a file named by the empty string in a directory.
\<close>

definition oddTree :: WispDirectory where
  "oddTree = WispDirectory
     (Some [([], WispFile ''Z'' None None), (''a?b'', WispFile ''Q'' None None),
            (''a#b'', WispFile ''H'' None None), (''.'', WispFile ''D'' None None),
            (''..'', WispFile ''U'' None None), ('' c'', WispFile ''W'' None None)])
     (Some [([], WispDirectory (Some [(''d'', WispFile ''E'' None None)]) None),
            (''e'', WispDirectory (Some [([], WispFile ''F'' None None)]) None)])"
section \<open>Retry with exponential backoff\<close>

text \<open>
  \<open>withRetry\<close> of the retry utility (in \<open>src/utils/logger.ts\<close>). A thrown value is a
  \<open>TypeError\<close>, another \<open>Error\<close> with or without a numeric \<open>status\<close> property, or a value
  that is no \<open>Error\<close>; \<open>Undefined\<close> is the initial value of \<open>lastError\<close>. A status is an
  integer. The operations that the application wraps throw a \<open>TypeError\<close> in two ways:
  \<open>fetch\<close> rejects with one on a network failure, and a property read on \<open>undefined\<close> raises
  one when a response lacks a field (\<open>record.uri.split\<close> and \<open>parsed.root\<close> in
  \<open>src/utils/atproto.ts\<close>). The origin is kept in the model; the code cannot see it.
\<close>

datatype Origin = FetchFailed | MalformedResponse

datatype Thrown =
  TypeError Origin
  | ErrorObject "int option"
  | OtherValue
  | Undefined















section \<open>The service worker: state, blob cache and control messages\<close>

text \<open>
  A byte is a number below 256. \<open>falsy\<close> is JavaScript's test \<open>!v\<close> on a value that is a
  string, \<open>null\<close> or \<open>undefined\<close>.
\<close>

type_synonym byte = nat

definition falsy :: "string option \<Rightarrow> bool" where
  "falsy v \<longleftrightarrow> v = None \<or> v = Some []"

text \<open>
  \<open>guessMimeType\<close>: the lower-cased text after the last dot, looked up in a table, with
  \<open>application/octet-stream\<close> as the default. \<open>contentTypeFor\<close> is the header value
  \<open>mimeType || guessMimeType(cid)\<close>.
\<close>

definition toLowerCase :: "string \<Rightarrow> string" where
  "toLowerCase s =
     map (\<lambda>c. if 65 \<le> (of_char c :: nat) \<and> (of_char c :: nat) \<le> 90
              then char_of (of_char c + 32 :: nat) else c) s"

definition mimeTypes :: "(string \<times> string) list" where
  "mimeTypes =
     [(''html'', ''text/html''), (''htm'', ''text/html''), (''css'', ''text/css''),
      (''js'', ''application/javascript''), (''json'', ''application/json''),
      (''xml'', ''application/xml''), (''txt'', ''text/plain''), (''md'', ''text/markdown''),
      (''png'', ''image/png''), (''jpg'', ''image/jpeg''), (''jpeg'', ''image/jpeg''),
      (''gif'', ''image/gif''), (''webp'', ''image/webp''), (''svg'', ''image/svg+xml''),
      (''ico'', ''image/x-icon''), (''pdf'', ''application/pdf''), (''zip'', ''application/zip''),
      (''wasm'', ''application/wasm''), (''mp3'', ''audio/mpeg''), (''mp4'', ''video/mp4''),
      (''webm'', ''video/webm''), (''ogg'', ''audio/ogg''), (''wav'', ''audio/wav''),
      (''ttf'', ''font/ttf''), (''otf'', ''font/otf''), (''woff'', ''font/woff''),
      (''woff2'', ''font/woff2''), (''eot'', ''application/vnd.ms-fontobject'')]"

definition guessMimeType :: "string \<Rightarrow> string" where
  "guessMimeType filename =
     (let ext = toLowerCase (last (splitOn CHR ''.'' filename))
      in case map_of mimeTypes ext of
           Some t \<Rightarrow> t
         | None \<Rightarrow> ''application/octet-stream'')"

definition contentTypeFor :: "string option \<Rightarrow> string \<Rightarrow> string" where
  "contentTypeFor mime blobCid =
     (case mime of
        Some m \<Rightarrow> if m = [] then guessMimeType blobCid else m
      | None \<Rightarrow> guessMimeType blobCid)"

text \<open>
  The state of the worker: its module variables, the handle \<open>db\<close> of the IndexedDB database
  (\<open>null\<close> until \<open>initDB\<close> has run in this worker instance), and the durable object stores:
  the two entries of the store \<open>manifests\<close> and the store \<open>blobs\<close> from content identifiers
  to bytes. The durable stores outlive a restart of the worker, the module variables and the
  handle do not. \<open>fetched\<close> logs the URLs requested from the network. Database operations are
  taken to succeed.
\<close>

record SiteInfo =
  siPdsUrl :: "string option"
  siDid :: "string option"
  siHandle :: "string option"
  siSiteName :: "string option"

record SwState =
  currentManifest :: "WispDirectory option"
  pdsUrl :: "string option"
  did :: "string option"
  currentHandle :: "string option"
  currentSiteName :: "string option"
  db :: bool
  storedManifest :: "WispDirectory option"
  storedSiteInfo :: "SiteInfo option"
  blobs :: "string \<rightharpoonup> byte list"
  fetched :: "string list"

text \<open>
  The environment of a call: what \<open>fetch\<close> answers for a URL (a network failure, or a
  response with status, status text and body) and what gzip decompression yields (\<open>None\<close> when
  it throws).
\<close>

datatype FetchResult =
  NetworkFailure
  | HttpResponse nat string "byte list"

record Environment =
  fetch :: "string \<Rightarrow> FetchResult"
  decompressGzip :: "byte list \<Rightarrow> byte list option"

datatype SwError =
  NotConfigured
  | FetchThrew
  | FailedToFetchBlob nat string
  | InvalidCharacter
  | FailedToDecompress string
  | FailedToDecode string

datatype CacheMarker = HIT | MISS

record BlobResponse =
  body :: "byte list"
  contentType :: string
  cacheControl :: string
  wispCache :: CacheMarker

definition initDB :: "SwState \<Rightarrow> SwState" where
  "initDB s = s\<lparr>db := True\<rparr>"

definition getBlob :: "string \<Rightarrow> SwState \<Rightarrow> byte list option \<times> SwState" where
  "getBlob blobCid s = (let s1 = (if \<not> db s then initDB s else s) in (blobs s1 blobCid, s1))"

definition storeBlob :: "string \<Rightarrow> byte list \<Rightarrow> SwState \<Rightarrow> SwState" where
  "storeBlob blobCid blob s =
     (let s1 = (if \<not> db s then initDB s else s)
      in s1\<lparr>blobs := (blobs s1)(blobCid \<mapsto> blob)\<rparr>)"

text \<open>
  Content sniffing. \<open>TextDecoder.decode\<close> drops a leading UTF-8 byte order mark and maps
  every byte below 128 to the same ASCII character; other bytes yield characters outside ASCII,
  which are not in the base64 alphabet. So the text is modelled by the bytes after the byte
  order mark: the test of \<open>/^[A-Za-z0-9+/]+={0,2}$/\<close> and, where it holds, the length of the
  text are the same. \<open>atob\<close> is the forgiving base64 decoder: it removes the padding when the
  length is a multiple of four, fails when a character outside the alphabet remains or the
  length is 1 modulo 4, and drops the bits left over at the end.
\<close>

definition stripBOM :: "byte list \<Rightarrow> byte list" where
  "stripBOM raw = (if take 3 raw = [0xEF, 0xBB, 0xBF] then drop 3 raw else raw)"

definition base64Value :: "byte \<Rightarrow> nat option" where
  "base64Value b =
     (if 65 \<le> b \<and> b \<le> 90 then Some (b - 65)
      else if 97 \<le> b \<and> b \<le> 122 then Some (b - 71)
      else if 48 \<le> b \<and> b \<le> 57 then Some (b + 4)
      else if b = 43 then Some 62
      else if b = 47 then Some 63
      else None)"

definition isBase64Char :: "byte \<Rightarrow> bool" where
  "isBase64Char b \<longleftrightarrow> base64Value b \<noteq> None"

definition looksBase64 :: "byte list \<Rightarrow> bool" where
  "looksBase64 textContent \<longleftrightarrow>
     takeWhile isBase64Char textContent \<noteq> [] \<and>
     dropWhile isBase64Char textContent \<in> {[], [61], [61, 61]}"

fun decodeSextets :: "nat list \<Rightarrow> byte list" where
  "decodeSextets (a # b # c # d # rest) =
     (a * 4 + b div 16) # ((b mod 16) * 16 + c div 4) # ((c mod 4) * 64 + d) # decodeSextets rest"
| "decodeSextets [a, b, c] = [a * 4 + b div 16, (b mod 16) * 16 + c div 4]"
| "decodeSextets [a, b] = [a * 4 + b div 16]"
| "decodeSextets _ = []"

definition atob :: "byte list \<Rightarrow> byte list option" where
  "atob textContent =
     (let n = length textContent;
          padding = length (dropWhile isBase64Char textContent);
          data = (if n mod 4 = 0 then take (n - padding) textContent else textContent)
      in if length data mod 4 = 1 \<or> \<not> list_all isBase64Char data then None
         else Some (decodeSextets (map (\<lambda>b. the (base64Value b)) data)))"

definition decodeBlob :: "Environment \<Rightarrow> string \<Rightarrow> byte list \<Rightarrow> SwError + byte list" where
  "decodeBlob env blobCid rawArrayBuffer =
     (let textContent = stripBOM rawArrayBuffer in
      if looksBase64 textContent \<and> length textContent > 50 then
        (case atob textContent of
           None \<Rightarrow> Inl InvalidCharacter
         | Some bytes \<Rightarrow>
             if take 2 bytes = [0x1f, 0x8b] then
               (case decompressGzip env bytes of
                  None \<Rightarrow> Inl (FailedToDecompress blobCid)
                | Some decompressedData \<Rightarrow> Inr decompressedData)
             else Inr bytes)
      else Inr rawArrayBuffer)"

text \<open>
  \<open>fetchBlobFromPDS\<close>. A stored blob is an object, so \<open>if (cached)\<close> holds whenever the store
  has an entry.
\<close>

definition blobUrl :: "string \<Rightarrow> string \<Rightarrow> string \<Rightarrow> string" where
  "blobUrl pds d blobCid = pds @ ''/xrpc/com.atproto.sync.getBlob?did='' @ d @ ''&cid='' @ blobCid"

definition fetchBlobFromPDS ::
  "Environment \<Rightarrow> string \<Rightarrow> string option \<Rightarrow> SwState \<Rightarrow> (SwError + BlobResponse) \<times> SwState" where
  "fetchBlobFromPDS env blobCid mime s =
     (if falsy (pdsUrl s) \<or> falsy (did s) then (Inl NotConfigured, s)
      else
        (case getBlob blobCid s of
           (Some cached, s1) \<Rightarrow>
             (Inr \<lparr>body = cached, contentType = contentTypeFor mime blobCid,
                   cacheControl = ''public, max-age=3600'', wispCache = HIT\<rparr>, s1)
         | (None, s1) \<Rightarrow>
             (let url = blobUrl (the (pdsUrl s1)) (the (did s1)) blobCid;
                  s2 = s1\<lparr>fetched := fetched s1 @ [url]\<rparr>
              in case fetch env url of
                   NetworkFailure \<Rightarrow> (Inl FetchThrew, s2)
                 | HttpResponse st stText rawArrayBuffer \<Rightarrow>
                     if \<not> (200 \<le> st \<and> st \<le> 299) then (Inl (FailedToFetchBlob st stText), s2)
                     else
                       (case decodeBlob env blobCid rawArrayBuffer of
                          Inl e \<Rightarrow> (Inl e, s2)
                        | Inr decompressedData \<Rightarrow>
                            (let s3 = (if length decompressedData \<le> 5 * 1024 * 1024
                                       then storeBlob blobCid decompressedData s2 else s2)
                             in (Inr \<lparr>body = decompressedData,
                                       contentType = contentTypeFor mime blobCid,
                                       cacheControl = ''public, max-age=3600'',
                                       wispCache = MISS\<rparr>, s3))))))"

text \<open>
  \<open>handleMessage\<close>: the control messages and their replies.
\<close>

datatype Message =
  SET_MANIFEST "WispDirectory option" "string option" "string option" "string option" "string option"
  | CLEAR_MANIFEST
  | CLEAR_CACHE
  | GET_STATUS
  | OtherMessage

datatype Reply =
  MANIFEST_SET bool
  | MANIFEST_CLEARED bool
  | CACHE_CLEARED bool
  | STATUS bool SiteInfo

definition orNull :: "string option \<Rightarrow> string option" where
  "orNull v = (if falsy v then None else v)"

definition handleMessage :: "Message \<Rightarrow> SwState \<Rightarrow> Reply option \<times> SwState" where
  "handleMessage data s =
     (case data of
        SET_MANIFEST manifest p d h n \<Rightarrow>
          (let s1 = s\<lparr>currentManifest := manifest, pdsUrl := p, did := d,
                       currentHandle := orNull h, currentSiteName := orNull n\<rparr>;
               s2 = (if \<not> db s1 then initDB s1 else s1)\<lparr>storedManifest := manifest\<rparr>;
               s3 = s2\<lparr>storedSiteInfo :=
                       Some \<lparr>siPdsUrl = pdsUrl s2, siDid = did s2,
                             siHandle = currentHandle s2, siSiteName = currentSiteName s2\<rparr>\<rparr>
           in (Some (MANIFEST_SET True), s3))
      | CLEAR_MANIFEST \<Rightarrow>
          (let s1 = s\<lparr>currentManifest := None, pdsUrl := None, did := None,
                       currentHandle := None, currentSiteName := None\<rparr>;
               s2 = (if db s1 then s1\<lparr>storedManifest := None, storedSiteInfo := None\<rparr> else s1)
           in (Some (MANIFEST_CLEARED True), s2))
      | CLEAR_CACHE \<Rightarrow>
          (let s1 = (if db s then s\<lparr>blobs := Map.empty\<rparr> else s)
           in (Some (CACHE_CLEARED True), s1))
      | GET_STATUS \<Rightarrow>
          (Some (STATUS (currentManifest s \<noteq> None)
                  \<lparr>siPdsUrl = pdsUrl s, siDid = did s,
                   siHandle = currentHandle s, siSiteName = currentSiteName s\<rparr>), s)
      | OtherMessage \<Rightarrow> (None, s))"

text \<open>
  \<open>lookupIndexFile\<close>: follow the non-empty segments of the normalised path and try the two
  index file names in the directory reached.
\<close>

definition lookupIndexFile :: "WispDirectory \<Rightarrow> string \<Rightarrow> WispFile option" where
  "lookupIndexFile manifest dirPath =
     (let normalized = swNormalizePath dirPath;
          segments = filter (\<lambda>s. s \<noteq> []) (splitOn CHR ''/'' normalized)
      in case walkDirs manifest segments of
           None \<Rightarrow> None
         | Some current \<Rightarrow>
             (case entryOf (files current) ''index.html'' of
                Some file \<Rightarrow> Some file
              | None \<Rightarrow> entryOf (files current) ''index.htm''))"

text \<open>
  \<open>handleFetch\<close> takes the path of the request URL. The match of
  \<^verbatim>\<open>/^\/wisp\/([^/]+)\/([^/]+)\/?(.*)?$/\<close> gives the requested identity, the site name and the
  path within the site; the dot does not match a line terminator. \<open>hasPrefix s t\<close> is
  \<open>s.startsWith(t)\<close> and \<open>hasSuffix s t\<close> is \<open>s.endsWith(t)\<close>.
\<close>

definition parseWispPath :: "string \<Rightarrow> (string \<times> string \<times> string) option" where
  "parseWispPath path =
     (if take 6 path \<noteq> ''/wisp/'' then None
      else
        (let afterPrefix = drop 6 path;
             requestDid = takeWhile (\<lambda>c. c \<noteq> CHR ''/'') afterPrefix;
             afterDid = dropWhile (\<lambda>c. c \<noteq> CHR ''/'') afterPrefix;
             requestSiteName = takeWhile (\<lambda>c. c \<noteq> CHR ''/'') (drop 1 afterDid);
             afterSiteName = dropWhile (\<lambda>c. c \<noteq> CHR ''/'') (drop 1 afterDid);
             actualPath = drop 1 afterSiteName
         in if requestDid = [] \<or> afterDid = [] \<or> requestSiteName = []
               \<or> CHR 0x0A \<in> set actualPath \<or> CHR 0x0D \<in> set actualPath
            then None
            else Some (requestDid, requestSiteName, actualPath)))"

definition hasPrefix :: "string \<Rightarrow> string \<Rightarrow> bool" where
  "hasPrefix s t \<longleftrightarrow> take (length t) s = t"

definition hasSuffix :: "string \<Rightarrow> string \<Rightarrow> bool" where
  "hasSuffix s t \<longleftrightarrow> length t \<le> length s \<and> drop (length s - length t) s = t"

text \<open>
  The outcome of \<open>handleFetch\<close>: the request is passed on to the network; or a plain
  response with a status and a text; or the directory listing of a path; or the response of
  \<open>fetchBlobFromPDS\<close>, as it is or with its text rewritten by \<open>injectOverlayScript\<close> or by
  \<open>rewriteCssUrls\<close>; or the error that \<open>fetchBlobFromPDS\<close> throws, which the listener of the
  fetch event turns into a response with status 500. The outcome records which rewriting is
  applied to which blob response; the rewritten text is not part of it.
\<close>

datatype FetchOutcome =
  PassThrough
  | PlainResponse nat string
  | DirectoryListing string
  | BlobServed BlobResponse
  | OverlayInjected BlobResponse
  | CssRewritten BlobResponse
  | Failed SwError

text \<open>
  The first part of \<open>handleFetch\<close>: without a manifest in memory, the manifest and then the
  site information are read from the durable store. Each read is awaited, so the handler of
  another event can run between \<open>loadManifest\<close> and \<open>loadSiteInfo\<close>.
\<close>

definition loadManifest :: "SwState \<Rightarrow> SwState" where
  "loadManifest s =
     (let s1 = (if \<not> db s then initDB s else s)
      in s1\<lparr>currentManifest := storedManifest s1\<rparr>)"

definition loadSiteInfo :: "SwState \<Rightarrow> SwState" where
  "loadSiteInfo s =
     (let s1 = (if \<not> db s then initDB s else s)
      in case storedSiteInfo s1 of
           None \<Rightarrow> s1
         | Some siteInfo \<Rightarrow>
             s1\<lparr>pdsUrl := siPdsUrl siteInfo, did := siDid siteInfo,
                currentHandle := siHandle siteInfo, currentSiteName := siSiteName siteInfo\<rparr>)"

definition rehydrate :: "SwState \<Rightarrow> SwState" where
  "rehydrate s = (if currentManifest s = None then loadSiteInfo (loadManifest s) else s)"

text \<open>
  The file that a request is answered with: the file at the path, or the index file of the
  directory at the path, or, where the path is no directory, the file at the path with
  \<open>.html\<close> appended. \<open>Inl\<close> is the response that ends the request without a file.
\<close>

definition resolveFile :: "WispDirectory \<Rightarrow> string \<Rightarrow> FetchOutcome + WispFile" where
  "resolveFile manifest requestPath =
     (case lookupFile manifest requestPath of
        Some file \<Rightarrow> Inr file
      | None \<Rightarrow>
          (case lookupIndexFile manifest requestPath of
             Some indexFile \<Rightarrow> Inr indexFile
           | None \<Rightarrow>
               (let segments = filter (\<lambda>s. s \<noteq> []) (splitOn CHR ''/'' requestPath);
                    isDirectory = (walkDirs manifest segments \<noteq> None)
                in if isDirectory then Inl (DirectoryListing requestPath)
                   else
                     (case lookupFile manifest (requestPath @ ''.html'') of
                        Some htmlFile \<Rightarrow> Inr htmlFile
                      | None \<Rightarrow> Inl (PlainResponse 404 ''File not found'')))))"

definition handleFetch :: "Environment \<Rightarrow> string \<Rightarrow> SwState \<Rightarrow> FetchOutcome \<times> SwState" where
  "handleFetch env path s =
     (case parseWispPath path of
        None \<Rightarrow> (PassThrough, s)
      | Some (requestDid, requestSiteName, actualPath) \<Rightarrow>
          (let requestPath = actualPath;
               s1 = rehydrate s
           in case currentManifest s1 of
                None \<Rightarrow>
                  (PlainResponse 503 ''No manifest loaded. Please load a site first.'', s1)
              | Some manifest \<Rightarrow>
                  if \<not> falsy (did s1) \<and> did s1 \<noteq> Some requestDid then
                    (PlainResponse 400 ''Site mismatch. Please navigate from the resolver.'', s1)
                  else
                    (case resolveFile manifest requestPath of
                       Inl response \<Rightarrow> (response, s1)
                     | Inr file \<Rightarrow>
                         (case fetchBlobFromPDS env (cid file) (mimeType file) s1 of
                            (Inl error, s2) \<Rightarrow> (Failed error, s2)
                          | (Inr response, s2) \<Rightarrow>
                              if mimeType file = Some ''text/html''
                                 \<or> (\<not> falsy (mimeType file)
                                     \<and> hasPrefix (the (mimeType file)) ''text/html'')
                                 \<or> hasSuffix requestPath ''.html'' \<or> hasSuffix requestPath ''.htm''
                              then (OverlayInjected response, s2)
                              else if mimeType file = Some ''text/css''
                                 \<or> (\<not> falsy (mimeType file)
                                     \<and> hasPrefix (the (mimeType file)) ''text/css'')
                                 \<or> hasSuffix requestPath ''.css''
                              then (CssRewritten response, s2)
                              else (BlobServed response, s2)))))"

text \<open>
  The hosting endpoint and the identity are both set.
\<close>

definition configured :: "SwState \<Rightarrow> bool" where
  "configured s \<longleftrightarrow> \<not> falsy (pdsUrl s) \<and> \<not> falsy (did s)"

text \<open>
  States and an environment for concrete evaluation: a worker serving a site with an empty
  blob cache; a network that answers every request with the two bytes \<open>hi\<close>; and a worker
  that has just been restarted, whose module variables and database handle are unset while
  the durable stores keep a manifest and one cached blob.
\<close>

definition servingState :: SwState where
  "servingState =
     \<lparr>currentManifest = Some demoTree, pdsUrl = Some ''https://pds.example'',
      did = Some ''did:plc:xyz'', currentHandle = None, currentSiteName = Some ''mysite'',
      db = True, storedManifest = Some demoTree,
      storedSiteInfo = Some \<lparr>siPdsUrl = Some ''https://pds.example'', siDid = Some ''did:plc:xyz'',
                              siHandle = None, siSiteName = Some ''mysite''\<rparr>,
      blobs = Map.empty, fetched = []\<rparr>"

definition exampleEnv :: Environment where
  "exampleEnv = \<lparr>fetch = (\<lambda>url. HttpResponse 200 ''OK'' [104, 105]),
                  decompressGzip = (\<lambda>bytes. None)\<rparr>"

definition restartedState :: SwState where
  "restartedState =
     \<lparr>currentManifest = None, pdsUrl = None, did = None, currentHandle = None,
      currentSiteName = None, db = False, storedManifest = Some demoTree,
      storedSiteInfo = Some \<lparr>siPdsUrl = Some ''https://pds.example'', siDid = Some ''did:plc:xyz'',
                              siHandle = None, siSiteName = Some ''mysite''\<rparr>,
      blobs = [''C'' \<mapsto> [104, 105]], fetched = []\<rparr>"

text \<open>
  The path of a request for the file \<open>a/b.html\<close> of the site, and the message that sets the
  same manifest with no hosting endpoint.
\<close>

definition examplePath :: string where
  "examplePath = ''/wisp/did:plc:xyz/mysite/a/b.html''"

definition manifestWithoutEndpoint :: Message where
  "manifestWithoutEndpoint =
     SET_MANIFEST (Some demoTree) None (Some ''did:plc:xyz'') None (Some ''mysite'')"
section \<open>The service worker: HTML post-processing\<close>

text \<open>
  \<open>injectOverlayScript\<close> works on the page text with regular expressions. The expressions it
  uses are sequences of five kinds of items: a literal text, an alternation of literal texts, one
  character of a class, and a greedy or a lazy star over a class. The classes are \<open>\s\<close>, the
  complement of one character and a set or the complement of a set of two characters. A
  match is the list of the pieces of the text taken by the items, in order, so that a capture group
  is a run of consecutive pieces.
\<close>

datatype CharClass = Space | Not char | Either char char | Neither char char

fun inClass :: "CharClass \<Rightarrow> char \<Rightarrow> bool" where
  "inClass Space c = isWhiteSpace c"
| "inClass (Not a) c = (c \<noteq> a)"
| "inClass (Either a b) c = (c = a \<or> c = b)"
| "inClass (Neither a b) c = (c \<noteq> a \<and> c \<noteq> b)"

datatype RegexItem =
  Lit string
  | OneOf "string list"
  | Class CharClass
  | Star CharClass
  | Lazy CharClass

text \<open>
  With the flag \<open>i\<close> two characters are equal when their canonical forms are. The literals of
  the expressions are ASCII letters and signs, for which this is equality after folding
  \<open>A\<close> to \<open>Z\<close> onto \<open>a\<close> to \<open>z\<close>; \<open>lowerCode\<close> is the code of the folded character.
\<close>

definition lowerCode :: "char \<Rightarrow> nat" where
  "lowerCode c = (if 65 \<le> (of_char c :: nat) \<and> (of_char c :: nat) \<le> 90
                  then of_char c + 32 else of_char c)"

fun startsWith :: "bool \<Rightarrow> string \<Rightarrow> string \<Rightarrow> bool" where
  "startsWith ignoreCase [] s = True"
| "startsWith ignoreCase (t # ts) [] = False"
| "startsWith ignoreCase (t # ts) (c # cs) =
     ((if ignoreCase then lowerCode t = lowerCode c else t = c) \<and> startsWith ignoreCase ts cs)"

fun firstSome :: "'a option list \<Rightarrow> 'a option" where
  "firstSome [] = None"
| "firstSome (Some x # rest) = Some x"
| "firstSome (None # rest) = firstSome rest"

text \<open>
  \<open>matchItems\<close> is the backtracking matcher anchored at the start of the text: the alternatives
  of an alternation are tried from left to right, a greedy star takes the longest run for which
  the rest of the expression matches, a lazy star the shortest.
\<close>

fun matchItems :: "bool \<Rightarrow> RegexItem list \<Rightarrow> string \<Rightarrow> string list option" where
  "matchItems ignoreCase [] s = Some []"
| "matchItems ignoreCase (Lit t # items) s =
     (if startsWith ignoreCase t s
      then map_option ((#) (take (length t) s)) (matchItems ignoreCase items (drop (length t) s))
      else None)"
| "matchItems ignoreCase (OneOf alternatives # items) s =
     firstSome
       (map (\<lambda>t. if startsWith ignoreCase t s
                 then map_option ((#) (take (length t) s))
                        (matchItems ignoreCase items (drop (length t) s))
                 else None)
          alternatives)"
| "matchItems ignoreCase (Class cls # items) [] = None"
| "matchItems ignoreCase (Class cls # items) (c # cs) =
     (if inClass cls c then map_option ((#) [c]) (matchItems ignoreCase items cs) else None)"
| "matchItems ignoreCase (Star cls # items) [] = map_option ((#) []) (matchItems ignoreCase items [])"
| "matchItems ignoreCase (Star cls # items) (c # cs) =
     (case (if inClass cls c then matchItems ignoreCase (Star cls # items) cs else None) of
        Some (piece # pieces) \<Rightarrow> Some ((c # piece) # pieces)
      | _ \<Rightarrow> map_option ((#) []) (matchItems ignoreCase items (c # cs)))"
| "matchItems ignoreCase (Lazy cls # items) [] = map_option ((#) []) (matchItems ignoreCase items [])"
| "matchItems ignoreCase (Lazy cls # items) (c # cs) =
     (case matchItems ignoreCase items (c # cs) of
        Some pieces \<Rightarrow> Some ([] # pieces)
      | None \<Rightarrow>
          (case (if inClass cls c then matchItems ignoreCase (Lazy cls # items) cs else None) of
             Some (piece # pieces) \<Rightarrow> Some ((c # piece) # pieces)
           | _ \<Rightarrow> None))"

text \<open>
  \<open>String.prototype.replace\<close> with a global expression and a replacer function: the text is
  scanned from left to right, every match is replaced by the result of the function, and the scan
  goes on behind the match, so that text put together by a removal is not looked at again.
  \<open>findMatch\<close> is the leftmost match, with the text before and behind it.
\<close>

fun replaceAll :: "bool \<Rightarrow> RegexItem list \<Rightarrow> (string list \<Rightarrow> string) \<Rightarrow> string \<Rightarrow> string" where
  "replaceAll ignoreCase regex replacer [] =
     (case matchItems ignoreCase regex [] of Some pieces \<Rightarrow> replacer pieces | None \<Rightarrow> [])"
| "replaceAll ignoreCase regex replacer (c # cs) =
     (case matchItems ignoreCase regex (c # cs) of
        None \<Rightarrow> c # replaceAll ignoreCase regex replacer cs
      | Some pieces \<Rightarrow>
          (if concat pieces = [] then replacer pieces @ c # replaceAll ignoreCase regex replacer cs
           else replacer pieces @
                replaceAll ignoreCase regex replacer (drop (length (concat pieces) - 1) cs)))"

fun findMatch :: "bool \<Rightarrow> RegexItem list \<Rightarrow> string \<Rightarrow> string \<Rightarrow> (string \<times> string list \<times> string) option" where
  "findMatch ignoreCase regex preceding [] =
     (case matchItems ignoreCase regex [] of
        Some pieces \<Rightarrow> Some (preceding, pieces, [])
      | None \<Rightarrow> None)"
| "findMatch ignoreCase regex preceding (c # cs) =
     (case matchItems ignoreCase regex (c # cs) of
        Some pieces \<Rightarrow> Some (preceding, pieces, drop (length (concat pieces)) (c # cs))
      | None \<Rightarrow> findMatch ignoreCase regex (preceding @ [c]) cs)"

text \<open>
  A replacement given as a string is expanded at its dollar patterns: a doubled dollar sign, the
  matched text, the text before and behind the match, and the capture groups with one or two
  digits. \<open>replaceFirst\<close> is \<open>replace\<close> with a string pattern or an expression without the
  flag \<open>g\<close>; \<open>groupsOf\<close> gives the capture groups from the pieces of the match.
\<close>

definition isDigit :: "char \<Rightarrow> bool" where
  "isDigit c \<longleftrightarrow> 48 \<le> (of_char c :: nat) \<and> (of_char c :: nat) \<le> 57"

definition digitValue :: "char \<Rightarrow> nat" where
  "digitValue c = of_char c - 48"

fun expandReplacement :: "string \<Rightarrow> string \<Rightarrow> string list \<Rightarrow> string \<Rightarrow> string \<Rightarrow> string" where
  "expandReplacement [] matched groups preceding following = []"
| "expandReplacement [c] matched groups preceding following = [c]"
| "expandReplacement (c # d # rest) matched groups preceding following =
     (if c \<noteq> CHR ''$'' then c # expandReplacement (d # rest) matched groups preceding following
      else if d = CHR ''$'' then CHR ''$'' # expandReplacement rest matched groups preceding following
      else if d = CHR ''&'' then matched @ expandReplacement rest matched groups preceding following
      else if d = CHR 0x60 then preceding @ expandReplacement rest matched groups preceding following
      else if d = CHR 0x27 then following @ expandReplacement rest matched groups preceding following
      else if isDigit d then
        (case rest of
           e # rest' \<Rightarrow>
             if isDigit e \<and> 1 \<le> 10 * digitValue d + digitValue e
                \<and> 10 * digitValue d + digitValue e \<le> length groups
             then groups ! (10 * digitValue d + digitValue e - 1) @
                  expandReplacement rest' matched groups preceding following
             else if 1 \<le> digitValue d \<and> digitValue d \<le> length groups
             then groups ! (digitValue d - 1) @ expandReplacement rest matched groups preceding following
             else c # expandReplacement (d # rest) matched groups preceding following
         | [] \<Rightarrow>
             if 1 \<le> digitValue d \<and> digitValue d \<le> length groups
             then groups ! (digitValue d - 1) @ expandReplacement rest matched groups preceding following
             else c # expandReplacement (d # rest) matched groups preceding following)
      else c # expandReplacement (d # rest) matched groups preceding following)"

definition replaceFirst ::
  "bool \<Rightarrow> RegexItem list \<Rightarrow> (string list \<Rightarrow> string list) \<Rightarrow> string \<Rightarrow> string \<Rightarrow> string" where
  "replaceFirst ignoreCase regex groupsOf replacement s =
     (case findMatch ignoreCase regex [] s of
        None \<Rightarrow> s
      | Some (preceding, pieces, following) \<Rightarrow>
          preceding @ expandReplacement replacement (concat pieces) (groupsOf pieces) preceding following @ following)"

definition stringIncludes :: "string \<Rightarrow> string \<Rightarrow> bool" where
  "stringIncludes s t \<longleftrightarrow> findMatch False [Lit t] [] s \<noteq> None"

text \<open>
  The expressions of \<open>injectOverlayScript\<close>, from \<^verbatim>\<open>src/unnamed/part_000\<close>: the base tag
  \<^verbatim>\<open><base\s+[^>]*>\<close>, the attribute with a path from the root, whose three groups are the
  first ten items, the next two and the last one, and the opening tags of \<open>head\<close>, \<open>html\<close>
  and \<open>body\<close>. \<open>rewriteAttribute\<close> is the replacer \<open>prefix + path.substring(1) + suffix\<close>.
\<close>

definition baseTagRegex :: "RegexItem list" where
  "baseTagRegex = [Lit ''<base'', Class Space, Star Space, Star (Not CHR ''>''), Lit ''>'']"

definition attributePrefixRegex :: "RegexItem list" where
  "attributePrefixRegex =
     [Lit ''<'', OneOf [''a'', ''link'', ''script'', ''img'', ''source'', ''iframe'', ''embed''],
      Class Space, Star Space, Lazy (Not CHR ''>''), OneOf [''href'', ''src'', ''srcset''],
      Star Space, Lit ''='', Star Space, Class (Either (CHR 0x27) (CHR 0x22))]"

definition attributeRegex :: "RegexItem list" where
  "attributeRegex =
     attributePrefixRegex @
     [Lit ''/'', Star (Neither (CHR 0x27) (CHR 0x22))] @
     [Class (Either (CHR 0x27) (CHR 0x22))]"

definition rewriteAttribute :: "string list \<Rightarrow> string" where
  "rewriteAttribute pieces =
     (let prefix = concat (take 10 pieces);
          path = concat (take 2 (drop 10 pieces));
          suffix = concat (drop 12 pieces)
      in prefix @ drop 1 path @ suffix)"

definition headRegex :: "RegexItem list" where
  "headRegex = [Lit ''<head'', Star (Not CHR ''>''), Lit ''>'']"

definition htmlRegex :: "RegexItem list" where
  "htmlRegex = [Lit ''<html'', Star (Not CHR ''>''), Lit ''>'']"

definition bodyRegex :: "RegexItem list" where
  "bodyRegex = [Lit ''<body'', Star (Not CHR ''>''), Lit ''>'']"

definition wholeMatch :: "string list \<Rightarrow> string list" where
  "wholeMatch pieces = [concat pieces]"

definition noGroups :: "string list \<Rightarrow> string list" where
  "noGroups pieces = []"

definition orDefault :: "string option \<Rightarrow> string \<Rightarrow> string" where
  "orDefault v d = (if falsy v then d else the v)"

text \<open>
  \<open>getOverlayScript\<close> returns the inlined overlay script, a constant text of 2983 characters.
\<close>

definition getOverlayScript :: string where
  "getOverlayScript =
     ''(function(){'' @ [CHR 0x27] @ ''use strict'' @ [CHR 0x27] @
     '';if(document.getElementById('' @ [CHR 0x27] @ ''wisp-overlay-container'' @ [CHR 0x27] @
     ''))return;const e=document.createElement('' @ [CHR 0x27] @ ''div'' @ [CHR 0x27] @
     '');e.id='' @ [CHR 0x27] @ ''wisp-overlay-container'' @ [CHR 0x27] @ '';const t='' @
     [CHR 0x60, CHR 0x0A] @ ''#wisp-overlay-container{pointer-events: none;position:fixed;bott'' @
     ''om:16px;left:0;width:100vw;display:flex;justify-content:center;a'' @
     ''lign-items:center;z-index:2147483647;font-family:system-ui,-appl'' @
     ''e-system,BlinkMacSystemFont,'' @ [CHR 0x27] @ ''Segoe UI'' @ [CHR 0x27] @
     '',Roboto,sans-serif}'' @ [CHR 0x0A] @
     ''#wisp-back-button{pointer-events: all;display:flex;align-items:c'' @
     ''enter;gap:8px;padding:8px 16px;background:rgba(255,255,255,.95);'' @
     ''backdrop-filter:blur(4px);box-shadow:0 4px 12px rgba(0,0,0,.15);'' @
     ''border-radius:8px;border:1px solid rgba(0,0,0,.1);cursor:pointer'' @
     '';font-size:14px;font-weight:500;color:#374151;transition:all .2s'' @
     '' ease;text-decoration:none}'' @ [CHR 0x0A] @
     ''#wisp-back-button:hover{background:#fff;color:#111827;box-shadow'' @
     '':0 6px 16px rgba(0,0,0,.2)}'' @ [CHR 0x0A] @
     ''#wisp-back-button:active{transform:translateY(1px)}'' @ [CHR 0x0A] @
     ''#wisp-back-button svg{width:20px;height:20px}'' @ [CHR 0x0A] @
     ''#wisp-overlay-container #wisp-close-button{position:absolute;top'' @
     '':-8px;right:-8px;width:20px;height:20px;background:#ef4444;color'' @
     '':#fff;border:0;border-radius:50%;cursor:pointer;display:none;ali'' @
     ''gn-items:center;justify-content:center;font-size:12px;font-weigh'' @
     ''t:700;line-height:1}'' @ [CHR 0x0A] @
     ''#wisp-overlay-container:hover #wisp-close-button{display:flex}'' @ [CHR 0x0A] @
     ''#wisp-overlay-container #wisp-close-button:hover{background:#dc2'' @ ''626}'' @
     [CHR 0x0A, CHR 0x60] @ '';const o=document.createElement('' @ [CHR 0x27] @ ''style'' @
     [CHR 0x27] @ '');o.textContent=t,document.head.appendChild(o);const n=document.'' @
     ''createElement('' @ [CHR 0x27] @ ''a'' @ [CHR 0x27] @ '');n.id='' @ [CHR 0x27] @
     ''wisp-back-button'' @ [CHR 0x27] @ '',n.href='' @ [CHR 0x27] @ ''/'' @ [CHR 0x27] @
     '',n.innerHTML='' @ [CHR 0x60] @ ''<svg viewBox='' @ [CHR 0x22] @ ''0 0 24 24'' @ [CHR 0x22] @
     '' fill='' @ [CHR 0x22] @ ''none'' @ [CHR 0x22] @ '' stroke='' @ [CHR 0x22] @
     ''currentColor'' @ [CHR 0x22] @ '' stroke-width='' @ [CHR 0x22] @ ''2'' @ [CHR 0x22] @
     '' stroke-linecap='' @ [CHR 0x22] @ ''round'' @ [CHR 0x22] @ '' stroke-linejoin='' @
     [CHR 0x22] @ ''round'' @ [CHR 0x22] @ ''><path d='' @ [CHR 0x22] @
     ''M19 12H5M12 19l-7-7 7-7'' @ [CHR 0x22] @ ''/></svg><span>Back to Resolver</span>'' @
     [CHR 0x60] @ '';const i=document.createElement('' @ [CHR 0x27] @ ''button'' @ [CHR 0x27] @
     '');i.id='' @ [CHR 0x27] @ ''wisp-close-button'' @ [CHR 0x27] @ '',i.innerHTML='' @
     [CHR 0x27, CHR 0xD7, CHR 0x27] @ '',i.title='' @ [CHR 0x27] @ ''Hide overlay'' @ [CHR 0x27] @
     '',i.setAttribute('' @ [CHR 0x27] @ ''aria-label'' @ [CHR 0x27] @ '','' @ [CHR 0x27] @
     ''Hide overlay'' @ [CHR 0x27] @ ''),i.addEventListener('' @ [CHR 0x27] @ ''click'' @
     [CHR 0x27] @ '',function(t){t.preventDefault(),t.stopPropagation(),e.remove()})'' @
     '',e.appendChild(n),e.appendChild(i);function r(){if(window.locati'' @
     ''on.pathname.startsWith('' @ [CHR 0x27] @ ''/wisp/'' @ [CHR 0x27] @
     '')){document.body.appendChild(e),e.style.opacity='' @ [CHR 0x27] @ ''0'' @ [CHR 0x27] @
     '',e.style.transition='' @ [CHR 0x27] @ ''opacity .3s ease'' @ [CHR 0x27] @
     '',requestAnimationFrame(()=>{e.style.opacity='' @ [CHR 0x27] @ ''1'' @ [CHR 0x27] @
     ''});var a=window.location.pathname.split('' @ [CHR 0x27] @ ''/'' @ [CHR 0x27] @
     '');if(a.length>=4){var d=a[2],s=a[3],l='' @ [CHR 0x27] @ ''/wisp/'' @ [CHR 0x27] @ ''+d+'' @
     [CHR 0x27] @ ''/'' @ [CHR 0x27] @ ''+s+'' @ [CHR 0x27] @ ''/'' @ [CHR 0x27] @
     '';document.addEventListener('' @ [CHR 0x27] @ ''click'' @ [CHR 0x27] @
     '',function c(t){var n=t.target.closest('' @ [CHR 0x27] @ ''a'' @ [CHR 0x27] @
     '');if(n){var h=n.getAttribute('' @ [CHR 0x27] @ ''href'' @ [CHR 0x27] @
     '');if(h&&h.startsWith('' @ [CHR 0x27] @ ''/'' @ [CHR 0x27] @ '')&&!h.startsWith('' @
     [CHR 0x27] @ ''//'' @ [CHR 0x27] @ '')&&!h.startsWith('' @ [CHR 0x27] @ ''/wisp/'' @
     [CHR 0x27] @ '')){var i=n.getAttribute('' @ [CHR 0x27] @ ''target'' @ [CHR 0x27] @
     '');if(!i||'' @ [CHR 0x27] @ ''_blank'' @ [CHR 0x27] @ ''!==i){var b=n.getAttribute('' @
     [CHR 0x27] @ ''download'' @ [CHR 0x27] @ '');if(!b){var o=h.includes('' @ [CHR 0x27] @
     ''://'' @ [CHR 0x27] @ '');if(!o){if(n.id==='' @ [CHR 0x27] @ ''wisp-back-button'' @
     [CHR 0x27] @ ''){console.log('' @ [CHR 0x27] @
     ''[Wisp Overlay] Back button clicked, allowing default navigation '' @ ''to '' @ [CHR 0x27] @
     ''+h);return}t.preventDefault(),t.stopPropagation();var f=l+h.repl'' @ ''ace(/^'' @
     [CHR 0x5C] @ ''//,'' @ [CHR 0x27, CHR 0x27] @ '');n.href=f,console.log('' @ [CHR 0x27] @
     ''[Wisp Overlay] Rewrote link: '' @ [CHR 0x27] @ ''+h+'' @ [CHR 0x27] @ '' -> '' @
     [CHR 0x27] @ ''+f),window.location.href=f}}}}}},false)}}}'' @ [CHR 0x27] @ ''loading'' @
     [CHR 0x27] @ ''===document.readyState?document.addEventListener('' @ [CHR 0x27] @
     ''DOMContentLoaded'' @ [CHR 0x27] @ '',r):r()})();''"

text \<open>
  \<open>injectOverlayScript\<close> reads the identifier and the site name of the worker's state. It
  removes the base tags, rewrites the attributes, puts its own base tag behind the opening
  \<open>head\<close> tag (or behind the opening \<open>html\<close> tag in a new head, or in a wrapper around the
  whole page) and the script before \<open></body>\<close> (or behind the opening \<open>body\<close> tag, or at the
  end).
\<close>

definition injectOverlayScript :: "string \<Rightarrow> string \<Rightarrow> SwState \<Rightarrow> string" where
  "injectOverlayScript html sitePath s =
     (let overlayScript = getOverlayScript;
          scriptTag = ''<script>'' @ overlayScript @ ''</script>'';
          wispDid = orDefault (did s) ''unknown'';
          wispSiteName = orDefault (currentSiteName s) ''site'';
          baseUrl = ''/wisp/'' @ wispDid @ ''/'' @ wispSiteName @ ''/'';
          baseTag = ''<base href='' @ [CHR 0x22] @ baseUrl @ [CHR 0x22] @ ''>'';
          result1 = replaceAll True baseTagRegex (\<lambda>pieces. []) html;
          result2 = replaceAll True attributeRegex rewriteAttribute result1;
          result3 =
            (if findMatch True headRegex [] result2 \<noteq> None then
               replaceFirst True headRegex wholeMatch
                 (''$1'' @ [CHR 0x0A] @ ''  '' @ baseTag) result2
             else if findMatch True htmlRegex [] result2 \<noteq> None then
               replaceFirst True htmlRegex wholeMatch
                 (''$1'' @ [CHR 0x0A] @ ''<head>'' @ [CHR 0x0A] @ ''  '' @ baseTag @ [CHR 0x0A] @
                  ''</head>'') result2
             else
               ''<!DOCTYPE html><html><head>'' @ [CHR 0x0A] @ ''  '' @ baseTag @ [CHR 0x0A] @
               ''</head><body>'' @ result2 @ ''</body></html>'')
      in if stringIncludes result3 ''</body>'' then
           replaceFirst False [Lit ''</body>''] noGroups
             (scriptTag @ [CHR 0x0A] @ ''</body>'') result3
         else if stringIncludes result3 ''<body'' then
           replaceFirst False bodyRegex wholeMatch (''$1'' @ [CHR 0x0A] @ scriptTag) result3
         else result3 @ scriptTag)"

text \<open>
  The number of base tags of a page is the number of matches of the worker's own expression,
  counted as \<open>replace\<close> finds them. \<open>noTagStart\<close> says that no \<open><\<close> of a text is followed
  by the letter b.
\<close>

fun countMatches :: "bool \<Rightarrow> RegexItem list \<Rightarrow> string \<Rightarrow> nat" where
  "countMatches ignoreCase regex [] =
     (case matchItems ignoreCase regex [] of Some pieces \<Rightarrow> 1 | None \<Rightarrow> 0)"
| "countMatches ignoreCase regex (c # cs) =
     (case matchItems ignoreCase regex (c # cs) of
        None \<Rightarrow> countMatches ignoreCase regex cs
      | Some pieces \<Rightarrow>
          1 + countMatches ignoreCase regex (drop (length (concat pieces) - 1) cs))"

fun noTagStart :: "string \<Rightarrow> bool" where
  "noTagStart [] = True"
| "noTagStart [c] = True"
| "noTagStart (c # d # rest) =
     (\<not> (c = CHR ''<'' \<and> lowerCode d = 98) \<and> noTagStart (d # rest))"

text \<open>
  A page that is one base tag with another one inside its name, what is left of it after the
  removal, and the head of the wrapper for the identifier and site name of \<open>servingState\<close>.
\<close>

definition nestedBaseHtml :: string where
  "nestedBaseHtml = ''<ba<base x>se href='' @ [CHR 0x22] @ ''/evil'' @ [CHR 0x22] @ ''>''"

definition evilBase :: string where
  "evilBase = ''<base href='' @ [CHR 0x22] @ ''/evil'' @ [CHR 0x22] @ ''>''"

definition injectedHead :: string where
  "injectedHead =
     ''<!DOCTYPE html><html><head>'' @ [CHR 0x0A] @ ''  <base href='' @ [CHR 0x22] @
     ''/wisp/did:plc:xyz/mysite/'' @ [CHR 0x22] @ ''>'' @ [CHR 0x0A] @ ''</head><body>''"

section \<open>Merging directories\<close>

text \<open>
  \<open>mergeDirectories\<close> of \<open>src/types/lexicon.ts\<close> receives the directory trees of the records
  as \<open>JSON.parse\<close> made them and works on them with property reads and assignments, object
  spread and \<open>Object.entries\<close>. Its model therefore works on JavaScript values: the
  primitive values; objects, given by their own enumerable properties in the order of their
  creation and by their prototype; \<open>Object.prototype\<close>; and the functions that
  \<open>Object.prototype\<close> holds, which a read of an inherited name such as \<open>constructor\<close>
  yields. The objects that \<open>JSON.parse\<close> and an object literal create have the prototype
  \<open>Object.prototype\<close>; \<open>JSON.parse\<close> makes every key of the text an own property, the key
  \<open>__proto__\<close> too.
\<close>

datatype JsValue =
  JsUndefined
  | JsNull
  | JsBoolean bool
  | JsNumber int
  | JsString string
  | ObjectPrototype
  | BuiltinFunction string
  | JsObject "(string \<times> JsValue) list" JsValue

definition emptyObject :: JsValue where
  "emptyObject = JsObject [] ObjectPrototype"

text \<open>
  \<open>truthy\<close> is the test of \<open>if (v)\<close>.
\<close>

definition truthy :: "JsValue \<Rightarrow> bool" where
  "truthy v =
     (case v of
        JsUndefined \<Rightarrow> False
      | JsNull \<Rightarrow> False
      | JsBoolean b \<Rightarrow> b
      | JsNumber n \<Rightarrow> n \<noteq> 0
      | JsString s \<Rightarrow> s \<noteq> []
      | _ \<Rightarrow> True)"

text \<open>
  A property read \<open>obj[name]\<close> takes the own property of the name, or else the property
  of the nearest object of the prototype chain that has one. \<open>Object.prototype\<close> has the
  methods listed and the accessor \<open>__proto__\<close>, whose getter returns the prototype of the
  object that was read. On a primitive value or a function \<open>mergeDirectories\<close> reads the
  names \<open>files\<close> and \<open>dirs\<close> only, which their prototypes do not define.
\<close>

definition objectPrototypeMethods :: "string list" where
  "objectPrototypeMethods =
     [''constructor'', ''hasOwnProperty'', ''isPrototypeOf'', ''propertyIsEnumerable'',
      ''toLocaleString'', ''toString'', ''valueOf'', ''__defineGetter__'', ''__defineSetter__'',
      ''__lookupGetter__'', ''__lookupSetter__'']"

fun getChain :: "JsValue \<Rightarrow> string \<Rightarrow> JsValue \<Rightarrow> JsValue" where
  "getChain (JsObject props proto) name receiverProto =
     (case map_of props name of
        Some v \<Rightarrow> v
      | None \<Rightarrow> getChain proto name receiverProto)"
| "getChain ObjectPrototype name receiverProto =
     (if name = ''__proto__'' then receiverProto
      else if name \<in> set objectPrototypeMethods then BuiltinFunction name
      else JsUndefined)"
| "getChain other name receiverProto = JsUndefined"

definition getProp :: "JsValue \<Rightarrow> string \<Rightarrow> JsValue" where
  "getProp obj name =
     (case obj of
        JsObject props proto \<Rightarrow> getChain obj name proto
      | ObjectPrototype \<Rightarrow> getChain obj name JsNull
      | _ \<Rightarrow> JsUndefined)"

text \<open>
  An assignment \<open>obj[name] = v\<close> to an object changes the own property of the name, or
  creates one at the end, also where the name is inherited as a data property. The name
  \<open>__proto__\<close> is the exception: where the object has no own property of this name and the
  chain leads to the accessor of \<open>Object.prototype\<close>, the setter runs, which makes an object
  or \<open>null\<close> the prototype of \<open>obj\<close> and ignores every other value; no own property is
  created. \<open>mergeDirectories\<close> assigns to objects only.
\<close>

fun findsProtoAccessor :: "JsValue \<Rightarrow> bool" where
  "findsProtoAccessor (JsObject props proto) =
     (map_of props ''__proto__'' = None \<and> findsProtoAccessor proto)"
| "findsProtoAccessor ObjectPrototype = True"
| "findsProtoAccessor other = False"

definition isObject :: "JsValue \<Rightarrow> bool" where
  "isObject v = (case v of JsObject props proto \<Rightarrow> True | ObjectPrototype \<Rightarrow> True
                 | BuiltinFunction f \<Rightarrow> True | _ \<Rightarrow> False)"

definition setProp :: "JsValue \<Rightarrow> string \<Rightarrow> JsValue \<Rightarrow> JsValue" where
  "setProp obj name v =
     (case obj of
        JsObject props proto \<Rightarrow>
          if map_of props name = None \<and> name = ''__proto__'' \<and> findsProtoAccessor proto then
            (if isObject v \<or> v = JsNull then JsObject props v else obj)
          else JsObject (AList.update name v props) proto
      | _ \<Rightarrow> obj)"

text \<open>
  The own enumerable properties of a value, in the order of \<open>Object.entries\<close> and of the
  object spread: the array indices (the decimal numerals below \<open>2^32 - 1\<close>) in ascending
  order, then the other names in the order of their creation. A string has its characters at
  its indices; the other primitive values, the functions and \<open>Object.prototype\<close> have no
  enumerable property. \<open>spread a b\<close> is \<open>{ ...a, ...b }\<close>, a new object that gets every
  property as an own one.
\<close>

function showNat :: "nat \<Rightarrow> string" where
  "showNat n =
     (if n < 10 then [char_of (48 + n)]
      else showNat (n div 10) @ [char_of (48 + n mod 10)])"
  by pat_completeness auto
termination
  by (relation "measure id") auto

declare showNat.simps [simp del]

definition readIndex :: "string \<Rightarrow> int" where
  "readIndex s = foldl (\<lambda>n c. 10 * n + int (digitValue c)) 0 s"

definition isArrayIndex :: "string \<Rightarrow> bool" where
  "isArrayIndex s \<longleftrightarrow>
     s \<noteq> [] \<and> list_all isDigit s \<and> (s = ''0'' \<or> hd s \<noteq> CHR ''0'') \<and> readIndex s < 4294967295"

definition orderedEntries :: "(string \<times> JsValue) list \<Rightarrow> (string \<times> JsValue) list" where
  "orderedEntries props =
     sort_key (\<lambda>(k, v). readIndex k) (filter (\<lambda>(k, v). isArrayIndex k) props) @
     filter (\<lambda>(k, v). \<not> isArrayIndex k) props"

definition ownEntries :: "JsValue \<Rightarrow> (string \<times> JsValue) list" where
  "ownEntries v =
     (case v of
        JsObject props proto \<Rightarrow> orderedEntries props
      | JsString s \<Rightarrow> map (\<lambda>i. (showNat i, JsString [s ! i])) [0 ..< length s]
      | _ \<Rightarrow> [])"

definition spread :: "JsValue \<Rightarrow> JsValue \<Rightarrow> JsValue" where
  "spread a b =
     JsObject (foldl (\<lambda>props (k, v). AList.update k v props) [] (ownEntries a @ ownEntries b))
       ObjectPrototype"

text \<open>
  \<open>mergeDirectories\<close>. \<open>mergeLoop\<close> is the loop over the arguments with the object
  \<open>result\<close>, and \<open>mergeEntries\<close> the loop over the entries of \<open>dir.dirs\<close> with the object
  \<open>result.dirs\<close>, which is written back when the loop has ended. The first argument bounds
  the nesting of the recursive calls: \<open>None\<close> says that the bound was reached, and a result
  with one bound is the result with every larger one (lemma \<open>merge_depth_mono\<close>).
\<close>

fun mergeLoop :: "nat \<Rightarrow> JsValue \<Rightarrow> JsValue list \<Rightarrow> JsValue option"
  and mergeEntries :: "nat \<Rightarrow> JsValue \<Rightarrow> (string \<times> JsValue) list \<Rightarrow> JsValue option" where
  "mergeLoop depth result [] = Some result"
| "mergeLoop depth result (dir # directories) =
     (if \<not> truthy dir then mergeLoop depth result directories
      else
        (let result1 =
               (if truthy (getProp dir ''files'')
                then setProp result ''files''
                       (spread (getProp result ''files'') (getProp dir ''files''))
                else result)
         in if truthy (getProp dir ''dirs'') then
              (let resultDirs =
                     (if truthy (getProp result1 ''dirs'') then getProp result1 ''dirs''
                      else emptyObject)
               in case mergeEntries depth resultDirs (ownEntries (getProp dir ''dirs'')) of
                    None \<Rightarrow> None
                  | Some merged \<Rightarrow>
                      mergeLoop depth (setProp result1 ''dirs'' merged) directories)
            else mergeLoop depth result1 directories))"
| "mergeEntries depth resultDirs [] = Some resultDirs"
| "mergeEntries depth resultDirs ((name, subDir) # entries) =
     (if truthy (getProp resultDirs name) then
        (case depth of
           0 \<Rightarrow> None
         | Suc deeper \<Rightarrow>
             (case mergeLoop deeper emptyObject [getProp resultDirs name, subDir] of
                None \<Rightarrow> None
              | Some merged \<Rightarrow>
                  mergeEntries depth (setProp resultDirs name merged) entries))
      else mergeEntries depth (setProp resultDirs name subDir) entries)"

definition mergeDirectories :: "nat \<Rightarrow> JsValue list \<Rightarrow> JsValue option" where
  "mergeDirectories depth directories = mergeLoop depth emptyObject directories"

text \<open>
  Values for concrete evaluation, as \<open>JSON.parse\<close> yields them. \<open>treeA\<close> is
  \<^verbatim>\<open>{"dirs": {"__proto__": {"files": {"files": {"cid": "x"}}}}}\<close>, a tree with one directory,
  named \<open>__proto__\<close>, that holds one file, named \<open>files\<close>; \<open>treeB\<close> is the empty tree; and
  \<open>treeC\<close> is \<^verbatim>\<open>{"dirs": {"files": {"files": {"g": {"cid": "y"}}}}}\<close>, a tree with one
  directory, named \<open>files\<close>, that holds one file, named \<open>g\<close>.
\<close>

definition plainObject :: "(string \<times> JsValue) list \<Rightarrow> JsValue" where
  "plainObject props = JsObject props ObjectPrototype"

definition wispFile :: "string \<Rightarrow> JsValue" where
  "wispFile c = plainObject [(''cid'', JsString c)]"

definition protoSubtree :: JsValue where
  "protoSubtree = plainObject [(''files'', plainObject [(''files'', wispFile ''x'')])]"

definition filesSubtree :: JsValue where
  "filesSubtree = plainObject [(''files'', plainObject [(''g'', wispFile ''y'')])]"

definition treeA :: JsValue where
  "treeA = plainObject [(''dirs'', plainObject [(''__proto__'', protoSubtree)])]"

definition treeB :: JsValue where
  "treeB = plainObject []"

definition treeC :: JsValue where
  "treeC = plainObject [(''dirs'', plainObject [(''files'', filesSubtree)])]"
section \<open>Path normalisation\<close>

lemma splitOn_not_Nil: "splitOn c xs \<noteq> []"
  by (induction xs) auto


lemma splitOn_no_sep: "s \<in> set (splitOn c xs) \<Longrightarrow> c \<notin> set s"
proof (induction xs arbitrary: s)
  case Nil
  then show ?case by simp
next
  case (Cons x xs)
  show ?case
  proof (cases "x = c")
    case True
    with Cons show ?thesis by auto
  next
    case False
    obtain y ys where split: "splitOn c xs = y # ys"
      using splitOn_not_Nil [of c xs] by (cases "splitOn c xs") auto
    with Cons False show ?thesis by auto
  qed
qed


lemma splitOn_append_sep:
  "c \<notin> set s \<Longrightarrow> splitOn c (s @ c # rest) = s # splitOn c rest"
  by (induction s) auto


lemma splitOn_no_sep_id: "c \<notin> set s \<Longrightarrow> splitOn c s = [s]"
  by (induction s) auto


lemma splitOn_joinWith:
  "R \<noteq> [] \<Longrightarrow> \<forall>s \<in> set R. c \<notin> set s \<Longrightarrow> splitOn c (joinWith [c] R) = R"
proof (induction "[c]" R rule: joinWith.induct)
  case 1
  then show ?case by simp
next
  case (2 s)
  then show ?case by (simp add: splitOn_no_sep_id)
next
  case (3 s t ts)
  then show ?case by (simp add: splitOn_append_sep)
qed


lemma foldl_popOrPush_subset:
  "set (foldl popOrPush acc segs) \<subseteq> set acc \<union> (set segs - {''..''})"
proof (induction segs arbitrary: acc)
  case Nil
  then show ?case by simp
next
  case (Cons a segs)
  have "set (popOrPush acc a) \<subseteq> set acc \<union> ({a} - {''..''})"
    by (auto simp: popOrPush_def dest: in_set_butlastD)
  with Cons [of "popOrPush acc a"] show ?case by auto
qed


lemma foldl_popOrPush_plain:
  "''..'' \<notin> set segs \<Longrightarrow> foldl popOrPush acc segs = acc @ segs"
  by (induction segs arbitrary: acc) (auto simp: popOrPush_def)


lemma normalizePath_segments: "normalizePath path = joinWith ''/'' (pathSegments path)"
  by (simp add: normalizePath_def pathSegments_def Let_def popOrPush_def [abs_def])


lemma pathSegments_clean:
  assumes "s \<in> set (pathSegments path)"
  shows "s \<noteq> [] \<and> s \<noteq> ''.'' \<and> s \<noteq> ''..'' \<and> CHR ''/'' \<notin> set s"
proof -
  from assms foldl_popOrPush_subset
  have "s \<in> set (filter (\<lambda>s. s \<noteq> [] \<and> s \<noteq> ''.'') (splitOn CHR ''/'' (trim path))) - {''..''}"
    unfolding pathSegments_def by fastforce
  then show ?thesis by (auto dest: splitOn_no_sep)
qed


lemma pathSegments_of_join:
  assumes clean: "\<forall>s \<in> set R. s \<noteq> [] \<and> s \<noteq> ''.'' \<and> s \<noteq> ''..'' \<and> CHR ''/'' \<notin> set s"
    and trimmed: "trim (joinWith ''/'' R) = joinWith ''/'' R"
  shows "pathSegments (joinWith ''/'' R) = R"
proof (cases "R = []")
  case True
  then show ?thesis by (simp add: pathSegments_def trim_def popOrPush_def)
next
  case False
  with clean have "splitOn CHR ''/'' (joinWith ''/'' R) = R"
    using splitOn_joinWith [of R "CHR ''/''"] by simp
  moreover from clean have "filter (\<lambda>s. s \<noteq> [] \<and> s \<noteq> ''.'') R = R"
    by (simp add: filter_id_conv)
  moreover from clean have "''..'' \<notin> set R" by auto
  ultimately show ?thesis
    by (simp add: pathSegments_def trimmed foldl_popOrPush_plain)
qed


text \<open>
  Claim C8, as the code has it. The two examples of the claim hold, and \<open>normalizePath\<close> is
  idempotent at every path whose normal form neither starts nor ends with white space. The
  restriction is needed: \<open>trim\<close> is applied to the whole path before it is split, so white
  space at the outer end of the first or last kept segment survives the first call and is
  removed by the second.
\<close>

theorem normalizePath_idempotent_trimmed:
  "normalizePath ''/a/../b/'' = ''b'' \<and> normalizePath ''a/./b'' = ''a/b'' \<and>
   (trim (normalizePath p) = normalizePath p \<longrightarrow>
      normalizePath (normalizePath p) = normalizePath p)"
proof -
  have ex1: "normalizePath ''/a/../b/'' = ''b''"
    by (simp add: normalizePath_def trim_def isWhiteSpace_def)
  have ex2: "normalizePath ''a/./b'' = ''a/b''"
    by (simp add: normalizePath_def trim_def isWhiteSpace_def)
  have "normalizePath (normalizePath p) = normalizePath p"
    if trimmed: "trim (normalizePath p) = normalizePath p"
  proof -
    have "pathSegments (joinWith ''/'' (pathSegments p)) = pathSegments p"
      using pathSegments_clean [of _ p] trimmed
      by (intro pathSegments_of_join) (auto simp: normalizePath_segments)
    then show ?thesis by (simp add: normalizePath_segments)
  qed
  with ex1 ex2 show ?thesis by blast
qed

theorem normalizePath_idempotent_trimmed_witness:
  "trim (normalizePath ''/a/../b/'') = normalizePath ''/a/../b/'' \<and>
   normalizePath (normalizePath ''/a/../b/'') = normalizePath ''/a/../b/''"
proof -
  have h: "trim (normalizePath ''/a/../b/'') = normalizePath ''/a/../b/''"
    by (simp add: normalizePath_def trim_def isWhiteSpace_def)
  with normalizePath_idempotent_trimmed [of "''/a/../b/''"] show ?thesis by blast
qed

text \<open>
  Claim C8 as stated fails at the path \<open>/ a\<close> (slash, space, a): the first call yields \<open> a\<close>
  with its leading space, the second call trims it to \<open>a\<close>.
\<close>

theorem normalizePath_not_idempotent:
  "normalizePath (normalizePath ''/ a'') \<noteq> normalizePath ''/ a''"
  by (simp add: normalizePath_def trim_def isWhiteSpace_def)

section \<open>Path lookup\<close>

lemma dropWhile_unchanged: "xs \<noteq> [] \<Longrightarrow> \<not> P (hd xs) \<Longrightarrow> dropWhile P xs = xs"
  by (cases xs) auto

lemma dropWhile_same_length: "length (dropWhile P xs) = length xs \<Longrightarrow> dropWhile P xs = xs"
proof -
  assume "length (dropWhile P xs) = length xs"
  moreover have "length (takeWhile P xs) + length (dropWhile P xs) = length xs"
    by (metis length_append takeWhile_dropWhile_id)
  ultimately have "takeWhile P xs = []" by simp
  then show ?thesis by (metis append_Nil takeWhile_dropWhile_id)
qed

lemma trim_unchanged:
  assumes "s = [] \<or> (\<not> isWhiteSpace (hd s) \<and> \<not> isWhiteSpace (last s))"
  shows "trim s = s"
proof (cases "s = []")
  case True
  then show ?thesis by (simp add: trim_def)
next
  case False
  with assms have front: "dropWhile isWhiteSpace s = s"
    by (simp add: dropWhile_unchanged)
  from False assms have "\<not> isWhiteSpace (hd (rev s))" by (simp add: hd_rev)
  with False have "dropWhile isWhiteSpace (rev s) = rev s"
    by (simp add: dropWhile_unchanged)
  with front show ?thesis by (simp add: trim_def)
qed

lemma dropWhile_fixed_hd:
  assumes "dropWhile P xs = xs" and "xs \<noteq> []"
  shows "\<not> P (hd xs)"
proof
  assume "P (hd xs)"
  with assms(2) have "dropWhile P xs = dropWhile P (tl xs)" by (cases xs) auto
  then have "length (dropWhile P xs) \<le> length (tl xs)"
    using length_dropWhile_le [of P "tl xs"] by simp
  with assms show False by (cases xs) auto
qed

lemma trim_fixed_ends:
  assumes "trim s = s" and "s \<noteq> []"
  shows "\<not> isWhiteSpace (hd s) \<and> \<not> isWhiteSpace (last s)"
proof -
  let ?d = "dropWhile isWhiteSpace s"
  let ?e = "dropWhile isWhiteSpace (rev ?d)"
  have e_le: "length ?e \<le> length ?d"
    using length_dropWhile_le [of isWhiteSpace "rev ?d"] by simp
  have d_le: "length ?d \<le> length s" by (rule length_dropWhile_le)
  from assms(1) have eq: "rev ?e = s" by (simp add: trim_def)
  then have "length ?e = length s" using length_rev [of ?e] by simp
  with e_le d_le have "length ?d = length s" by simp
  then have d: "?d = s" by (rule dropWhile_same_length)
  from d assms(2) have h: "\<not> isWhiteSpace (hd s)" by (rule dropWhile_fixed_hd)
  from eq d have "rev (dropWhile isWhiteSpace (rev s)) = rev (rev s)" by simp
  then have "dropWhile isWhiteSpace (rev s) = rev s" by (simp only: rev_is_rev_conv)
  moreover from assms(2) have "rev s \<noteq> []" by simp
  ultimately have "\<not> isWhiteSpace (hd (rev s))" by (rule dropWhile_fixed_hd)
  with assms(2) h show ?thesis by (simp add: hd_rev)
qed

lemma slash_not_white: "\<not> isWhiteSpace CHR ''/''"
  by (simp add: isWhiteSpace_def)

lemma trim_lead_slash: "trim p = p \<Longrightarrow> trim (CHR ''/'' # p) = CHR ''/'' # p"
proof (cases "p = []")
  case True
  then show ?thesis by (simp add: trim_unchanged slash_not_white)
next
  case False
  assume "trim p = p"
  with False have "\<not> isWhiteSpace (last p)" using trim_fixed_ends by blast
  with False show ?thesis by (intro trim_unchanged) (simp add: slash_not_white)
qed

lemma trim_trail_slash: "trim p = p \<Longrightarrow> trim (p @ ''/'') = p @ ''/''"
proof (cases "p = []")
  case True
  then show ?thesis by (simp add: trim_unchanged slash_not_white)
next
  case False
  assume "trim p = p"
  with False have "\<not> isWhiteSpace (hd p)" using trim_fixed_ends by blast
  with False show ?thesis by (intro trim_unchanged) (simp add: slash_not_white)
qed

lemma splitOn_snoc_sep: "splitOn c (xs @ [c]) = splitOn c xs @ [[]]"
proof (induction xs)
  case Nil
  then show ?case by simp
next
  case (Cons x xs)
  obtain y ys where "splitOn c xs = y # ys"
    using splitOn_not_Nil [of c xs] by (cases "splitOn c xs") auto
  with Cons show ?case by simp
qed

lemma pathSegments_lead_slash:
  "trim p = p \<Longrightarrow> pathSegments (CHR ''/'' # p) = pathSegments p"
  by (simp add: pathSegments_def trim_lead_slash)

lemma pathSegments_trail_slash:
  "trim p = p \<Longrightarrow> pathSegments (p @ ''/'') = pathSegments p"
  by (simp add: pathSegments_def trim_trail_slash splitOn_snoc_sep)

lemma lookupPath_same_normal:
  "normalizePath p = normalizePath q \<Longrightarrow> lookupPath T p = lookupPath T q"
  by (simp add: lookupPath_def)

lemma lookupFile_same_normal:
  assumes "swNormalizePath p = swNormalizePath q"
  shows "lookupFile T p = lookupFile T q"
  by (subst lookupFile.simps [of T p], subst lookupFile.simps [of T q]) (simp add: assms)

lemma takeWhile_all: "\<forall>x \<in> set xs. P x \<Longrightarrow> takeWhile P xs = xs"
  by (induction xs) auto

lemma takeWhile_stop: "\<forall>x \<in> set xs. P x \<Longrightarrow> \<not> P y \<Longrightarrow> takeWhile P (xs @ y # ys) = xs"
  by (induction xs) auto

lemma swNormalizePath_unfold:
  assumes "path \<noteq> []" and "path \<noteq> ''/''"
    and "noLead = (if hd path = CHR ''/'' then tl path else path)"
    and "takeWhile (\<lambda>c. c \<noteq> CHR ''?'' \<and> c \<noteq> CHR ''#'') noLead = n"
  shows "swNormalizePath path = (if n \<noteq> [] \<and> last n = CHR ''/'' then butlast n else n)"
proof -
  have "(case path of c # rest \<Rightarrow> if c = CHR ''/'' then rest else path | [] \<Rightarrow> path) = noLead"
    using assms(1,3) by (cases path) auto
  with assms(1,2,4) show ?thesis
    unfolding swNormalizePath_def Let_def by simp
qed

lemma swNormalizePath_canonical:
  assumes "canonicalPath p"
  shows "swNormalizePath p = p"
    and "swNormalizePath (CHR ''/'' # p) = p"
    and "swNormalizePath (p @ ''/'') = p"
    and "swNormalizePath (p @ CHR ''?'' # q) = p"
    and "swNormalizePath (p @ CHR ''#'' # q) = p"
proof -
  have ne: "p \<noteq> []" and hdp: "hd p \<noteq> CHR ''/''" and lastp: "last p \<noteq> CHR ''/''"
    using assms by (auto simp: canonicalPath_def)
  have ok: "\<forall>x \<in> set p. x \<noteq> CHR ''?'' \<and> x \<noteq> CHR ''#''"
    using assms by (auto simp: canonicalPath_def)
  have notslash: "p \<noteq> ''/''" using hdp by auto
  have tw: "takeWhile (\<lambda>c. c \<noteq> CHR ''?'' \<and> c \<noteq> CHR ''#'') p = p"
    using ok by (rule takeWhile_all)
  have tws: "takeWhile (\<lambda>c. c \<noteq> CHR ''?'' \<and> c \<noteq> CHR ''#'') (p @ ''/'') = p @ ''/''"
    using ok by (intro takeWhile_all) auto
  have twq: "takeWhile (\<lambda>c. c \<noteq> CHR ''?'' \<and> c \<noteq> CHR ''#'') (p @ CHR ''?'' # q) = p"
    using ok by (intro takeWhile_stop) auto
  have twh: "takeWhile (\<lambda>c. c \<noteq> CHR ''?'' \<and> c \<noteq> CHR ''#'') (p @ CHR ''#'' # q) = p"
    using ok by (intro takeWhile_stop) auto
  show "swNormalizePath p = p"
    using swNormalizePath_unfold [OF ne notslash _ tw] hdp lastp by simp
  have "swNormalizePath (CHR ''/'' # p) = (if p \<noteq> [] \<and> last p = CHR ''/'' then butlast p else p)"
    by (rule swNormalizePath_unfold [OF _ _ _ tw]) (simp_all add: ne)
  then show "swNormalizePath (CHR ''/'' # p) = p" using lastp by simp
  have "swNormalizePath (p @ ''/'') =
      (if p @ ''/'' \<noteq> [] \<and> last (p @ ''/'') = CHR ''/'' then butlast (p @ ''/'') else p @ ''/'')"
    by (rule swNormalizePath_unfold [OF _ _ _ tws]) (simp_all add: ne hdp)
  then show "swNormalizePath (p @ ''/'') = p" by simp
  have "swNormalizePath (p @ CHR ''?'' # q) = (if p \<noteq> [] \<and> last p = CHR ''/'' then butlast p else p)"
    by (rule swNormalizePath_unfold [OF _ _ _ twq]) (simp_all add: ne hdp append_eq_Cons_conv)
  then show "swNormalizePath (p @ CHR ''?'' # q) = p" using lastp by simp
  have "swNormalizePath (p @ CHR ''#'' # q) = (if p \<noteq> [] \<and> last p = CHR ''/'' then butlast p else p)"
    by (rule swNormalizePath_unfold [OF _ _ _ twh]) (simp_all add: ne hdp append_eq_Cons_conv)
  then show "swNormalizePath (p @ CHR ''#'' # q) = p" using lastp by simp
qed

lemma joinWith_splitOn: "joinWith [c] (splitOn c xs) = xs"
proof (induction xs)
  case Nil
  then show ?case by simp
next
  case (Cons x xs)
  obtain y ys where split: "splitOn c xs = y # ys"
    using splitOn_not_Nil [of c xs] by (cases "splitOn c xs") auto
  show ?case
  proof (cases "x = c")
    case True
    with Cons split show ?thesis by simp
  next
    case False
    with Cons split show ?thesis by (cases ys) auto
  qed
qed

lemma plainPath_segments:
  assumes "plainPath p"
  shows "pathSegments p = splitOn CHR ''/'' p" and "normalizePath p = p" and "p \<noteq> []"
proof -
  from assms have t: "trim p = p"
    and clean: "\<forall>s \<in> set (splitOn CHR ''/'' p). s \<noteq> [] \<and> s \<noteq> ''.'' \<and> s \<noteq> ''..''"
    by (simp_all add: plainPath_def)
  from clean have "filter (\<lambda>s. s \<noteq> [] \<and> s \<noteq> ''.'') (splitOn CHR ''/'' p) = splitOn CHR ''/'' p"
    by (simp add: filter_id_conv)
  moreover from clean have "''..'' \<notin> set (splitOn CHR ''/'' p)" by auto
  ultimately show seg: "pathSegments p = splitOn CHR ''/'' p"
    by (simp add: pathSegments_def t foldl_popOrPush_plain)
  then show "normalizePath p = p"
    by (simp add: normalizePath_segments joinWith_splitOn)
  from clean show "p \<noteq> []" by auto
qed

lemma lookupPath_file:
  assumes "plainPath p" and "fileAtPath T p = Some f"
  shows "lookupPath T p = Some (fileResult f)"
proof -
  from assms(2) obtain currentDir
    where w: "walkDirs T (butlast (splitOn CHR ''/'' p)) = Some currentDir"
      and e: "entryOf (files currentDir) (last (splitOn CHR ''/'' p)) = Some f"
    by (auto simp: fileAtPath_def fileAt_def split: option.splits)
  from plainPath_segments(2,3) [OF assms(1)] w e show ?thesis
    by (simp add: lookupPath_def fileResult_def Let_def)
qed

lemma lookupFile_canonical:
  assumes "canonicalPath p"
  shows "lookupFile T p = fileAtPath T p"
proof -
  have n: "swNormalizePath p = p" by (rule swNormalizePath_canonical(1) [OF assms])
  from assms have ne: "p \<noteq> []" by (simp add: canonicalPath_def)
  show ?thesis
    by (subst lookupFile.simps) (simp add: n ne fileAtPath_def fileAt_def Let_def)
qed

text \<open>
  Claim C1, as the code has it. Let the tree map the file entry \<open>f\<close> at the path \<open>p\<close>. The
  service worker's \<open>lookupFile\<close> returns \<open>f\<close> for \<open>p\<close>, for \<open>p\<close> with a slash added in front
  or at the end, and for \<open>p\<close> with a query string or a fragment appended, when \<open>p\<close> is in the
  worker's normal form (not empty, no slash at either end, no \<open>?\<close> and no \<open>#\<close>).
  \<open>lookupPath\<close> returns the file result of \<open>f\<close> for \<open>p\<close> and for \<open>p\<close> with a slash added in
  front or at the end, when \<open>p\<close> is a plain path; it does not remove a query string or a
  fragment.
\<close>

theorem lookup_path_variants:
  assumes "fileAtPath T p = Some f"
  shows "(canonicalPath p \<longrightarrow>
            lookupFile T p = Some f \<and>
            lookupFile T (CHR ''/'' # p) = Some f \<and>
            lookupFile T (p @ ''/'') = Some f \<and>
            lookupFile T (p @ CHR ''?'' # q) = Some f \<and>
            lookupFile T (p @ CHR ''#'' # q) = Some f) \<and>
         (plainPath p \<longrightarrow>
            lookupPath T p = Some (fileResult f) \<and>
            lookupPath T (CHR ''/'' # p) = Some (fileResult f) \<and>
            lookupPath T (p @ ''/'') = Some (fileResult f))"
proof (intro conjI impI)
  assume c: "canonicalPath p"
  show base: "lookupFile T p = Some f"
    using assms by (simp add: lookupFile_canonical [OF c])
  have "lookupFile T (CHR ''/'' # p) = lookupFile T p"
    by (rule lookupFile_same_normal) (simp add: swNormalizePath_canonical [OF c])
  with base show "lookupFile T (CHR ''/'' # p) = Some f" by simp
  have "lookupFile T (p @ ''/'') = lookupFile T p"
    by (rule lookupFile_same_normal) (simp add: swNormalizePath_canonical [OF c])
  with base show "lookupFile T (p @ ''/'') = Some f" by simp
  have "lookupFile T (p @ CHR ''?'' # q) = lookupFile T p"
    by (rule lookupFile_same_normal) (simp add: swNormalizePath_canonical [OF c])
  with base show "lookupFile T (p @ CHR ''?'' # q) = Some f" by simp
  have "lookupFile T (p @ CHR ''#'' # q) = lookupFile T p"
    by (rule lookupFile_same_normal) (simp add: swNormalizePath_canonical [OF c])
  with base show "lookupFile T (p @ CHR ''#'' # q) = Some f" by simp
next
  assume pl: "plainPath p"
  then have t: "trim p = p" by (simp add: plainPath_def)
  show base: "lookupPath T p = Some (fileResult f)"
    using pl assms by (rule lookupPath_file)
  have "lookupPath T (CHR ''/'' # p) = lookupPath T p"
    using t by (intro lookupPath_same_normal)
      (simp add: normalizePath_segments pathSegments_lead_slash)
  with base show "lookupPath T (CHR ''/'' # p) = Some (fileResult f)" by simp
  have "lookupPath T (p @ ''/'') = lookupPath T p"
    using t by (intro lookupPath_same_normal)
      (simp add: normalizePath_segments pathSegments_trail_slash)
  with base show "lookupPath T (p @ ''/'') = Some (fileResult f)" by simp
qed

lemma lookupFile_plain_name:
  assumes "swNormalizePath name = name" and "name \<noteq> []" and "CHR ''/'' \<notin> set name"
  shows "lookupFile T name = entryOf (files T) name"
  using assms by (subst lookupFile.simps) (simp add: splitOn_no_sep_id)

lemma lookupFile_root:
  assumes "swNormalizePath p = []"
  shows "lookupFile T p =
           (case entryOf (files T) ''index.html'' of
              Some f \<Rightarrow> Some f
            | None \<Rightarrow> entryOf (files T) ''index.htm'')"
proof -
  have a: "lookupFile T ''index.html'' = entryOf (files T) ''index.html''"
    by (rule lookupFile_plain_name) (simp_all add: swNormalizePath_def)
  have b: "lookupFile T ''index.htm'' = entryOf (files T) ''index.htm''"
    by (rule lookupFile_plain_name) (simp_all add: swNormalizePath_def)
  show ?thesis
    using assms by (subst lookupFile.simps) (simp add: a b split: option.splits)
qed


theorem lookup_path_variants_witness:
  "fileAtPath demoTree ''a/b.html'' = Some (WispFile ''C'' None None) \<and>
   canonicalPath ''a/b.html'' \<and> plainPath ''a/b.html'' \<and>
   lookupFile demoTree ''a/b.html'' = Some (WispFile ''C'' None None) \<and>
   lookupFile demoTree ''/a/b.html'' = Some (WispFile ''C'' None None) \<and>
   lookupFile demoTree ''a/b.html/'' = Some (WispFile ''C'' None None) \<and>
   lookupFile demoTree ''a/b.html?x=1#y'' = Some (WispFile ''C'' None None) \<and>
   lookupFile demoTree ''a/b.html#y'' = Some (WispFile ''C'' None None) \<and>
   lookupPath demoTree ''a/b.html'' = Some (FileLookupResult ''C'' ''application/octet-stream'') \<and>
   lookupPath demoTree ''/a/b.html'' = Some (FileLookupResult ''C'' ''application/octet-stream'') \<and>
   lookupPath demoTree ''a/b.html/'' = Some (FileLookupResult ''C'' ''application/octet-stream'')"
proof -
  have m: "fileAtPath demoTree ''a/b.html'' = Some (WispFile ''C'' None None)"
    by (simp add: fileAtPath_def fileAt_def demoTree_def entryOf_def)
  have c: "canonicalPath ''a/b.html''"
    by (simp add: canonicalPath_def)
  have pl: "plainPath ''a/b.html''"
    by (simp add: plainPath_def trim_def isWhiteSpace_def)
  have r: "fileResult (WispFile ''C'' None None) = FileLookupResult ''C'' ''application/octet-stream''"
    by (simp add: fileResult_def)
  from lookup_path_variants [OF m, of "''x=1#y''"] c pl
  have 1: "lookupFile demoTree ''a/b.html'' = Some (WispFile ''C'' None None)"
    and 2: "lookupFile demoTree ''/a/b.html'' = Some (WispFile ''C'' None None)"
    and 3: "lookupFile demoTree ''a/b.html/'' = Some (WispFile ''C'' None None)"
    and 4: "lookupFile demoTree ''a/b.html?x=1#y'' = Some (WispFile ''C'' None None)"
    and 5: "lookupPath demoTree ''a/b.html'' = Some (FileLookupResult ''C'' ''application/octet-stream'')"
    and 6: "lookupPath demoTree ''/a/b.html'' = Some (FileLookupResult ''C'' ''application/octet-stream'')"
    and 7: "lookupPath demoTree ''a/b.html/'' = Some (FileLookupResult ''C'' ''application/octet-stream'')"
    by (simp_all add: r)
  from lookup_path_variants [OF m, of "''y''"] c
  have 8: "lookupFile demoTree ''a/b.html#y'' = Some (WispFile ''C'' None None)"
    by simp
  from m c pl 1 2 3 4 5 6 7 8 show ?thesis by blast
qed

text \<open>
  Claim C1 as stated fails for \<open>lookupPath\<close>: its \<open>normalizePath\<close> keeps the query string
  and the fragment in the last segment, so the file that the tree maps at \<open>a/b.html\<close> is not
  found at \<open>a/b.html?x=1#y\<close>. It also fails at paths that the normalisations change. In
  \<open>oddTree\<close> the worker's \<open>lookupFile\<close> does not find the files mapped at the empty path,
  at \<open>a?b\<close>, at \<open>a#b\<close>, at \<open>/d\<close> and at \<open>e/\<close>; \<open>lookupPath\<close> does not find the files
  mapped at \<open>/d\<close>, at \<open>e/\<close> and at the name with a leading space, and does not return the
  files named \<open>.\<close> and \<open>..\<close>.
\<close>

theorem lookupPath_keeps_query:
  "fileAtPath demoTree ''a/b.html'' = Some (WispFile ''C'' None None) \<and>
   lookupPath demoTree ''a/b.html?x=1#y'' = None \<and>
   fileAtPath oddTree [] = Some (WispFile ''Z'' None None) \<and>
   lookupFile oddTree [] = None \<and>
   fileAtPath oddTree ''a?b'' = Some (WispFile ''Q'' None None) \<and>
   lookupFile oddTree ''a?b'' = None \<and>
   fileAtPath oddTree ''a#b'' = Some (WispFile ''H'' None None) \<and>
   lookupFile oddTree ''a#b'' = None \<and>
   fileAtPath oddTree ''/d'' = Some (WispFile ''E'' None None) \<and>
   lookupFile oddTree ''/d'' = None \<and> lookupPath oddTree ''/d'' = None \<and>
   fileAtPath oddTree ''e/'' = Some (WispFile ''F'' None None) \<and>
   lookupFile oddTree ''e/'' = None \<and>
   lookupPath oddTree ''e/'' \<noteq> Some (fileResult (WispFile ''F'' None None)) \<and>
   fileAtPath oddTree '' c'' = Some (WispFile ''W'' None None) \<and>
   lookupPath oddTree '' c'' = None \<and>
   fileAtPath oddTree ''.'' = Some (WispFile ''D'' None None) \<and>
   lookupPath oddTree ''.'' \<noteq> Some (fileResult (WispFile ''D'' None None)) \<and>
   fileAtPath oddTree ''..'' = Some (WispFile ''U'' None None) \<and>
   lookupPath oddTree ''..'' \<noteq> Some (fileResult (WispFile ''U'' None None))"
proof -
  have index: "lookupFile oddTree ''index.html'' = None" "lookupFile oddTree ''index.htm'' = None"
    by (subst lookupFile.simps, simp add: swNormalizePath_def oddTree_def entryOf_def)+
  have root: "lookupFile oddTree [] = None"
    by (subst lookupFile.simps) (simp add: swNormalizePath_def index)
  have sw: "lookupFile oddTree ''a?b'' = None" "lookupFile oddTree ''a#b'' = None"
    "lookupFile oddTree ''/d'' = None"
    "lookupFile oddTree ''e/'' = None"
    by (subst lookupFile.simps, simp add: swNormalizePath_def oddTree_def entryOf_def)+
  have maps: "fileAtPath demoTree ''a/b.html'' = Some (WispFile ''C'' None None)"
    "fileAtPath oddTree [] = Some (WispFile ''Z'' None None)"
    "fileAtPath oddTree ''a?b'' = Some (WispFile ''Q'' None None)"
    "fileAtPath oddTree ''a#b'' = Some (WispFile ''H'' None None)"
    "fileAtPath oddTree ''/d'' = Some (WispFile ''E'' None None)"
    "fileAtPath oddTree ''e/'' = Some (WispFile ''F'' None None)"
    "fileAtPath oddTree '' c'' = Some (WispFile ''W'' None None)"
    "fileAtPath oddTree ''.'' = Some (WispFile ''D'' None None)"
    "fileAtPath oddTree ''..'' = Some (WispFile ''U'' None None)"
    by (simp_all add: fileAtPath_def fileAt_def demoTree_def oddTree_def entryOf_def)
  have vfs: "lookupPath demoTree ''a/b.html?x=1#y'' = None"
    "lookupPath oddTree ''/d'' = None"
    "lookupPath oddTree ''e/'' \<noteq> Some (fileResult (WispFile ''F'' None None))"
    "lookupPath oddTree '' c'' = None"
    "lookupPath oddTree ''.'' \<noteq> Some (fileResult (WispFile ''D'' None None))"
    "lookupPath oddTree ''..'' \<noteq> Some (fileResult (WispFile ''U'' None None))"
    by (simp_all add: lookupPath_def normalizePath_def trim_def isWhiteSpace_def demoTree_def
        oddTree_def entryOf_def fileResult_def)
  from root sw maps vfs show ?thesis by simp
qed

text \<open>
  Claim C10. For a path that the service worker normalises to the empty path, \<open>lookupFile\<close>
  returns the root's file entry \<open>index.html\<close> if there is one, else the root's entry
  \<open>index.htm\<close>, else \<open>null\<close>; its result is a file entry and never a listing. \<open>lookupPath\<close>
  returns the listing of the root for every path that its own \<open>normalizePath\<close> maps to the
  empty path.
\<close>

theorem root_lookup_index_or_listing:
  "(swNormalizePath p = [] \<longrightarrow>
      lookupFile T p =
        (case entryOf (files T) ''index.html'' of
           Some f \<Rightarrow> Some f
         | None \<Rightarrow> entryOf (files T) ''index.htm'')) \<and>
   (normalizePath p' = [] \<longrightarrow>
      lookupPath T p' =
        Some (DirectoryLookupResult
               (case files T of None \<Rightarrow> [] | Some fs \<Rightarrow> fs)
               (map fst (case dirs T of None \<Rightarrow> [] | Some ds \<Rightarrow> ds))))"
  using lookupFile_root [of p T] by (simp add: lookupPath_def)

theorem root_lookup_index_or_listing_witness:
  "swNormalizePath ''/?x=1'' = [] \<and> normalizePath '' / '' = [] \<and>
   lookupFile indexTree ''/?x=1'' = Some (WispFile ''I'' None None) \<and>
   lookupPath indexTree '' / '' =
     Some (DirectoryLookupResult
            [(''index.htm'', WispFile ''H'' None None), (''index.html'', WispFile ''I'' None None)]
            [''a''])"
proof -
  have a: "swNormalizePath ''/?x=1'' = []"
    by (simp add: swNormalizePath_def)
  have b: "normalizePath '' / '' = []"
    by (simp add: normalizePath_def trim_def isWhiteSpace_def)
  from root_lookup_index_or_listing [of "''/?x=1''" indexTree "'' / ''"] a b
  show ?thesis by (simp add: indexTree_def entryOf_def)
qed

section \<open>The retry policy\<close>










section \<open>The blob cache\<close>

lemma getBlob_simps [simp]:
  "fst (getBlob c s) = blobs s c"
  "blobs (snd (getBlob c s)) = blobs s"
  "pdsUrl (snd (getBlob c s)) = pdsUrl s"
  "did (snd (getBlob c s)) = did s"
  "fetched (snd (getBlob c s)) = fetched s"
  "db (snd (getBlob c s))"
  by (simp_all add: getBlob_def initDB_def Let_def)

lemma storeBlob_simps [simp]:
  "blobs (storeBlob c b s) = (blobs s)(c \<mapsto> b)"
  "pdsUrl (storeBlob c b s) = pdsUrl s"
  "did (storeBlob c b s) = did s"
  "fetched (storeBlob c b s) = fetched s"
  by (simp_all add: storeBlob_def initDB_def Let_def)

lemma fetchBlobFromPDS_hit:
  assumes "configured s" and "blobs s c = Some cached"
  shows "fetchBlobFromPDS env c mime s =
           (Inr \<lparr>body = cached, contentType = contentTypeFor mime c,
                 cacheControl = ''public, max-age=3600'', wispCache = HIT\<rparr>,
            snd (getBlob c s))"
proof -
  obtain v s1 where g: "getBlob c s = (v, s1)" by (cases "getBlob c s")
  with assms(2) have "v = Some cached" using getBlob_simps(1) [of c s] by simp
  with g assms(1) show ?thesis
    by (simp add: fetchBlobFromPDS_def configured_def)
qed

lemma fetchBlobFromPDS_unconfigured:
  "\<not> configured s \<Longrightarrow> fetchBlobFromPDS env c mime s = (Inl NotConfigured, s)"
  by (auto simp: fetchBlobFromPDS_def configured_def)

lemma fetchBlobFromPDS_miss:
  assumes "configured s" and "blobs s c = None"
  shows "fetchBlobFromPDS env c mime s =
     (let s1 = snd (getBlob c s);
          url = blobUrl (the (pdsUrl s)) (the (did s)) c;
          s2 = s1\<lparr>fetched := fetched s1 @ [url]\<rparr>
      in case fetch env url of
           NetworkFailure \<Rightarrow> (Inl FetchThrew, s2)
         | HttpResponse st stText rawArrayBuffer \<Rightarrow>
             if \<not> (200 \<le> st \<and> st \<le> 299) then (Inl (FailedToFetchBlob st stText), s2)
             else
               (case decodeBlob env c rawArrayBuffer of
                  Inl e \<Rightarrow> (Inl e, s2)
                | Inr decompressedData \<Rightarrow>
                    (Inr \<lparr>body = decompressedData, contentType = contentTypeFor mime c,
                          cacheControl = ''public, max-age=3600'', wispCache = MISS\<rparr>,
                     if length decompressedData \<le> 5 * 1024 * 1024
                     then storeBlob c decompressedData s2 else s2)))"
proof -
  obtain v s1 where g: "getBlob c s = (v, s1)" by (cases "getBlob c s")
  with assms(2) have v: "v = None" using getBlob_simps(1) [of c s] by simp
  from g have s1: "s1 = snd (getBlob c s)" by simp
  have p: "pdsUrl s1 = pdsUrl s" "did s1 = did s" by (simp_all add: s1)
  from g v assms(1) show ?thesis
    unfolding fetchBlobFromPDS_def configured_def
    by (simp add: Let_def p s1 [symmetric] split: FetchResult.splits sum.splits)
qed

lemma fetchBlobFromPDS_keeps:
  "pdsUrl (snd (fetchBlobFromPDS env c mime s)) = pdsUrl s"
  "did (snd (fetchBlobFromPDS env c mime s)) = did s"
  "blobs s c' = Some b \<Longrightarrow> blobs (snd (fetchBlobFromPDS env c mime s)) c' = Some b"
proof -
  consider (u) "\<not> configured s" | (h) cached where "configured s" "blobs s c = Some cached"
    | (m) "configured s" "blobs s c = None"
    by (cases "blobs s c") auto
  then have "pdsUrl (snd (fetchBlobFromPDS env c mime s)) = pdsUrl s \<and>
    did (snd (fetchBlobFromPDS env c mime s)) = did s \<and>
    (blobs s c' = Some b \<longrightarrow> blobs (snd (fetchBlobFromPDS env c mime s)) c' = Some b)"
  proof cases
    case u
    then show ?thesis by (simp add: fetchBlobFromPDS_unconfigured)
  next
    case h
    then show ?thesis by (simp add: fetchBlobFromPDS_hit)
  next
    case m
    then show ?thesis
      by (auto simp: fetchBlobFromPDS_miss Let_def split: FetchResult.splits sum.splits)
  qed
  then show "pdsUrl (snd (fetchBlobFromPDS env c mime s)) = pdsUrl s"
    "did (snd (fetchBlobFromPDS env c mime s)) = did s"
    "blobs s c' = Some b \<Longrightarrow> blobs (snd (fetchBlobFromPDS env c mime s)) c' = Some b"
    by simp_all
qed

text \<open>
  Claim C5. When \<open>fetchBlobFromPDS\<close> misses the cache and returns a response, the response
  carries the marker MISS and the decoded content of the fetched blob; the content is stored
  under the content identifier exactly when its size is at most \<open>5 * 1024 * 1024\<close> bytes.
  Larger content is returned but the blob store stays as it was, so every response of an
  immediately repeated fetch carries the marker MISS again.
\<close>

theorem blob_cache_admission:
  assumes "blobs s c = None"
    and "fetchBlobFromPDS env c mime s = (Inr response, s')"
  shows "wispCache response = MISS \<and>
    (\<exists>st stText raw.
       fetch env (blobUrl (the (pdsUrl s)) (the (did s)) c) = HttpResponse st stText raw \<and>
       decodeBlob env c raw = Inr (body response)) \<and>
    (blobs s' c = Some (body response) \<longleftrightarrow> length (body response) \<le> 5 * 1024 * 1024) \<and>
    (length (body response) \<le> 5 * 1024 * 1024 \<longrightarrow> blobs s' = (blobs s)(c \<mapsto> body response)) \<and>
    (length (body response) > 5 * 1024 * 1024 \<longrightarrow>
       blobs s' = blobs s \<and>
       (\<forall>env' mime' r s''.
          fetchBlobFromPDS env' c mime' s' = (Inr r, s'') \<longrightarrow> wispCache r = MISS))"
proof -
  have conf: "configured s"
    using assms(2) by (cases "configured s") (simp_all add: fetchBlobFromPDS_unconfigured)
  let ?url = "blobUrl (the (pdsUrl s)) (the (did s)) c"
  from assms conf obtain st stText raw where
    f: "fetch env ?url = HttpResponse st stText raw" and ok: "200 \<le> st \<and> st \<le> 299"
    by (auto simp: fetchBlobFromPDS_miss Let_def split: FetchResult.splits if_splits)
  from assms conf f ok obtain d where d: "decodeBlob env c raw = Inr d"
    by (auto simp: fetchBlobFromPDS_miss Let_def split: sum.splits)
  from assms conf f ok d have r: "response =
      \<lparr>body = d, contentType = contentTypeFor mime c,
       cacheControl = ''public, max-age=3600'', wispCache = MISS\<rparr>"
    and s': "s' = (if length d \<le> 5 * 1024 * 1024
                  then storeBlob c d ((snd (getBlob c s))\<lparr>fetched := fetched (snd (getBlob c s)) @ [?url]\<rparr>)
                  else (snd (getBlob c s))\<lparr>fetched := fetched (snd (getBlob c s)) @ [?url]\<rparr>)"
    by (simp_all add: fetchBlobFromPDS_miss Let_def)
  have big: "wispCache r' = MISS"
    if "length d > 5 * 1024 * 1024" "fetchBlobFromPDS env' c mime' s' = (Inr r', s'')"
    for env' mime' r' s''
  proof -
    from that(1) s' assms(1) have miss: "blobs s' c = None" by simp
    from that(2) have "configured s'"
      by (cases "configured s'") (simp_all add: fetchBlobFromPDS_unconfigured)
    with miss that(2) show ?thesis
      by (auto simp: fetchBlobFromPDS_miss Let_def split: FetchResult.splits sum.splits if_splits)
  qed
  from r s' assms(1) f d big show ?thesis by auto
qed

lemma example_fetch:
  "fetchBlobFromPDS exampleEnv ''C'' None servingState =
     (Inr \<lparr>body = [104, 105], contentType = ''application/octet-stream'',
           cacheControl = ''public, max-age=3600'', wispCache = MISS\<rparr>,
      servingState\<lparr>blobs := [''C'' \<mapsto> [104, 105]],
        fetched := [''https://pds.example/xrpc/com.atproto.sync.getBlob?did=did:plc:xyz&cid=C'']\<rparr>)"
  by (simp add: fetchBlobFromPDS_def servingState_def exampleEnv_def falsy_def getBlob_def
      storeBlob_def blobUrl_def decodeBlob_def stripBOM_def Let_def contentTypeFor_def
      guessMimeType_def toLowerCase_def mimeTypes_def)

theorem blob_cache_admission_witness:
  "blobs servingState ''C'' = None \<and>
   fst (fetchBlobFromPDS exampleEnv ''C'' None servingState) =
     Inr \<lparr>body = [104, 105], contentType = ''application/octet-stream'',
          cacheControl = ''public, max-age=3600'', wispCache = MISS\<rparr> \<and>
   blobs (snd (fetchBlobFromPDS exampleEnv ''C'' None servingState)) ''C'' = Some [104, 105]"
proof -
  have miss: "blobs servingState ''C'' = None" by (simp add: servingState_def)
  from blob_cache_admission [OF miss example_fetch]
  have "blobs (servingState\<lparr>blobs := [''C'' \<mapsto> [104, 105]],
        fetched := [''https://pds.example/xrpc/com.atproto.sync.getBlob?did=did:plc:xyz&cid=C'']\<rparr>) ''C''
        = Some [104, 105]"
    by simp
  with miss show ?thesis by (simp add: example_fetch)
qed

text \<open>
  Claim C6, as the code has it. For a content identifier in the blob cache, a call of
  \<open>fetchBlobFromPDS\<close> requests nothing from the network and leaves the cache as it is. When the
  hosting endpoint and the identity are configured it returns the cached bytes with the
  marker HIT; when they are not, the guard at the head of the function fails the call before
  the cache is read. No call of \<open>fetchBlobFromPDS\<close> removes the entry or changes the
  configuration, so this holds for every later call.
\<close>

theorem cache_hit_suppresses_fetch:
  assumes "blobs s c = Some cached"
  shows "(configured s \<longrightarrow>
            fst (fetchBlobFromPDS env c mime s) =
              Inr \<lparr>body = cached, contentType = contentTypeFor mime c,
                   cacheControl = ''public, max-age=3600'', wispCache = HIT\<rparr>) \<and>
         (\<not> configured s \<longrightarrow> fst (fetchBlobFromPDS env c mime s) = Inl NotConfigured) \<and>
         fetched (snd (fetchBlobFromPDS env c mime s)) = fetched s \<and>
         blobs (snd (fetchBlobFromPDS env c mime s)) = blobs s \<and>
         configured (snd (fetchBlobFromPDS env c mime s)) = configured s \<and>
         (\<forall>env' c' mime'. blobs (snd (fetchBlobFromPDS env' c' mime' s)) c = Some cached)"
proof -
  have keep: "blobs (snd (fetchBlobFromPDS env' c' mime' s)) c = Some cached" for env' c' mime'
    using assms by (rule fetchBlobFromPDS_keeps(3))
  have conf: "configured (snd (fetchBlobFromPDS env c mime s)) = configured s"
    by (simp add: configured_def fetchBlobFromPDS_keeps)
  show ?thesis
  proof (cases "configured s")
    case True
    with assms keep conf show ?thesis by (simp add: fetchBlobFromPDS_hit)
  next
    case False
    with assms keep conf show ?thesis by (simp add: fetchBlobFromPDS_unconfigured)
  qed
qed

theorem cache_hit_suppresses_fetch_witness:
  "blobs (snd (fetchBlobFromPDS exampleEnv ''C'' None servingState)) ''C'' = Some [104, 105] \<and>
   configured (snd (fetchBlobFromPDS exampleEnv ''C'' None servingState)) \<and>
   fst (fetchBlobFromPDS exampleEnv ''C'' None
          (snd (fetchBlobFromPDS exampleEnv ''C'' None servingState))) =
     Inr \<lparr>body = [104, 105], contentType = ''application/octet-stream'',
          cacheControl = ''public, max-age=3600'', wispCache = HIT\<rparr> \<and>
   fetched (snd (fetchBlobFromPDS exampleEnv ''C'' None
          (snd (fetchBlobFromPDS exampleEnv ''C'' None servingState)))) =
     fetched (snd (fetchBlobFromPDS exampleEnv ''C'' None servingState))"
proof -
  let ?s = "snd (fetchBlobFromPDS exampleEnv ''C'' None servingState)"
  have cached: "blobs ?s ''C'' = Some [104, 105]" by (simp add: example_fetch)
  have conf: "configured ?s"
    unfolding example_fetch by (simp add: configured_def falsy_def servingState_def)
  have ct: "contentTypeFor None ''C'' = ''application/octet-stream''"
    by (simp add: contentTypeFor_def guessMimeType_def toLowerCase_def mimeTypes_def)
  from cache_hit_suppresses_fetch [OF cached, of exampleEnv None] conf ct cached
  show ?thesis by simp
qed

text \<open>
  Claim C6 as stated fails in a worker that serves a site. The first request for
  \<open>a/b.html\<close> fetches the blob \<open>C\<close> from the network and admits it to the cache. A
  \<open>SET_MANIFEST\<close> message that carries no hosting endpoint then leaves the manifest in memory
  and the endpoint unset. The second request for the file finds it in the manifest and calls
  \<open>fetchBlobFromPDS\<close> for \<open>C\<close>, which is still cached: the call fails with
  \<open>PDS or DID not configured\<close> instead of returning the cached bytes.
\<close>

theorem cached_blob_unconfigured:
  "fst (handleFetch exampleEnv examplePath servingState) =
     OverlayInjected \<lparr>body = [104, 105], contentType = ''application/octet-stream'',
       cacheControl = ''public, max-age=3600'', wispCache = MISS\<rparr> \<and>
   blobs (snd (handleFetch exampleEnv examplePath servingState)) ''C'' = Some [104, 105] \<and>
   blobs (snd (handleMessage manifestWithoutEndpoint
            (snd (handleFetch exampleEnv examplePath servingState)))) ''C'' = Some [104, 105] \<and>
   resolveFile demoTree ''a/b.html'' = Inr (WispFile ''C'' None None) \<and>
   fst (fetchBlobFromPDS exampleEnv ''C'' None
          (snd (handleMessage manifestWithoutEndpoint
             (snd (handleFetch exampleEnv examplePath servingState))))) = Inl NotConfigured \<and>
   fst (handleFetch exampleEnv examplePath
          (snd (handleMessage manifestWithoutEndpoint
             (snd (handleFetch exampleEnv examplePath servingState))))) = Failed NotConfigured"
proof -
  have parse: "parseWispPath examplePath = Some (''did:plc:xyz'', ''mysite'', ''a/b.html'')"
    by (simp add: parseWispPath_def examplePath_def)
  have found: "lookupFile demoTree ''a/b.html'' = Some (WispFile ''C'' None None)"
    by (subst lookupFile.simps) (simp add: swNormalizePath_def demoTree_def entryOf_def)
  have resolve: "resolveFile demoTree ''a/b.html'' = Inr (WispFile ''C'' None None)"
    by (simp add: resolveFile_def found)
  have first:
    "handleFetch exampleEnv examplePath servingState =
       (OverlayInjected \<lparr>body = [104, 105], contentType = ''application/octet-stream'',
          cacheControl = ''public, max-age=3600'', wispCache = MISS\<rparr>,
        servingState\<lparr>blobs := [''C'' \<mapsto> [104, 105]],
          fetched := [''https://pds.example/xrpc/com.atproto.sync.getBlob?did=did:plc:xyz&cid=C'']\<rparr>)"
  proof -
    have r: "rehydrate servingState = servingState"
      by (simp add: rehydrate_def servingState_def)
    have m: "currentManifest servingState = Some demoTree" "did servingState = Some ''did:plc:xyz''"
      by (simp_all add: servingState_def)
    show ?thesis
      unfolding handleFetch_def parse
      by (simp add: r m resolve example_fetch falsy_def hasSuffix_def)
  qed
  let ?s2 = "snd (handleMessage manifestWithoutEndpoint
      (servingState\<lparr>blobs := [''C'' \<mapsto> [104, 105]],
         fetched := [''https://pds.example/xrpc/com.atproto.sync.getBlob?did=did:plc:xyz&cid=C'']\<rparr>))"
  have s2: "currentManifest ?s2 = Some demoTree" "pdsUrl ?s2 = None"
    "did ?s2 = Some ''did:plc:xyz''" "blobs ?s2 ''C'' = Some [104, 105]"
    by (simp_all add: handleMessage_def manifestWithoutEndpoint_def servingState_def)
  have r2: "rehydrate ?s2 = ?s2"
    by (simp add: rehydrate_def s2)
  have blob2: "fetchBlobFromPDS exampleEnv ''C'' None ?s2 = (Inl NotConfigured, ?s2)"
    by (simp add: fetchBlobFromPDS_def s2 falsy_def)
  have second: "fst (handleFetch exampleEnv examplePath ?s2) = Failed NotConfigured"
    unfolding handleFetch_def parse
    by (simp add: r2 s2 resolve blob2 falsy_def)
  from first s2 resolve blob2 second show ?thesis by simp
qed

text \<open>
  The same happens without any message in a worker that was restarted with the blob \<open>C\<close> in
  its durable cache. A first request loads the manifest and waits for the site information; a
  second request that is handled in between finds the manifest in memory, does not load
  the site information, and its call of \<open>fetchBlobFromPDS\<close> fails. Handled alone, the request
  is answered from the cache.
\<close>

lemma request_during_rehydration:
  "blobs (loadManifest restartedState) ''C'' = Some [104, 105] \<and>
   fst (handleFetch exampleEnv examplePath (loadManifest restartedState)) = Failed NotConfigured \<and>
   fst (handleFetch exampleEnv examplePath restartedState) =
     OverlayInjected \<lparr>body = [104, 105], contentType = ''application/octet-stream'',
       cacheControl = ''public, max-age=3600'', wispCache = HIT\<rparr>"
proof -
  have parse: "parseWispPath examplePath = Some (''did:plc:xyz'', ''mysite'', ''a/b.html'')"
    by (simp add: parseWispPath_def examplePath_def)
  have found: "lookupFile demoTree ''a/b.html'' = Some (WispFile ''C'' None None)"
    by (subst lookupFile.simps) (simp add: swNormalizePath_def demoTree_def entryOf_def)
  have resolve: "resolveFile demoTree ''a/b.html'' = Inr (WispFile ''C'' None None)"
    by (simp add: resolveFile_def found)
  have ct: "contentTypeFor None ''C'' = ''application/octet-stream''"
    by (simp add: contentTypeFor_def guessMimeType_def toLowerCase_def mimeTypes_def)
  let ?s1 = "loadManifest restartedState"
  have s1: "currentManifest ?s1 = Some demoTree" "pdsUrl ?s1 = None" "did ?s1 = None"
    "blobs ?s1 ''C'' = Some [104, 105]"
    by (simp_all add: loadManifest_def restartedState_def initDB_def)
  have r1: "rehydrate ?s1 = ?s1" by (simp add: rehydrate_def s1)
  have between: "fst (handleFetch exampleEnv examplePath ?s1) = Failed NotConfigured"
    unfolding handleFetch_def parse
    by (simp add: r1 s1 resolve fetchBlobFromPDS_def falsy_def)
  let ?s2 = "rehydrate restartedState"
  have s2: "currentManifest ?s2 = Some demoTree" "pdsUrl ?s2 = Some ''https://pds.example''"
    "did ?s2 = Some ''did:plc:xyz''" "blobs ?s2 ''C'' = Some [104, 105]" "db ?s2"
    by (simp_all add: rehydrate_def loadManifest_def loadSiteInfo_def restartedState_def initDB_def)
  have alone: "fst (handleFetch exampleEnv examplePath restartedState) =
     OverlayInjected \<lparr>body = [104, 105], contentType = ''application/octet-stream'',
       cacheControl = ''public, max-age=3600'', wispCache = HIT\<rparr>"
    unfolding handleFetch_def parse
    by (simp add: s2 resolve fetchBlobFromPDS_def getBlob_def falsy_def ct hasSuffix_def)
  from s1(4) between alone show ?thesis by simp
qed

section \<open>Control messages\<close>

text \<open>
  What \<open>CLEAR_CACHE\<close> does in every state: it replies success and changes nothing but the
  blob store, which it empties when the database handle is open.
\<close>

lemma clear_cache_frame:
  "fst (handleMessage CLEAR_CACHE s) = Some (CACHE_CLEARED True) \<and>
   snd (handleMessage CLEAR_CACHE s) = s\<lparr>blobs := (if db s then Map.empty else blobs s)\<rparr>"
  by (simp add: handleMessage_def)

text \<open>
  Claim C9 at a worker that was restarted: the database handle is \<open>null\<close>, the guard
  \<open>if (db)\<close> skips the clearing, and the reply still reports success while the cached blob
  stays in the durable store.
\<close>

theorem clear_cache_without_db_handle:
  "blobs restartedState ''C'' = Some [104, 105] \<and>
   handleMessage CLEAR_CACHE restartedState = (Some (CACHE_CLEARED True), restartedState)"
  by (simp add: handleMessage_def restartedState_def)

section \<open>HTML post-processing: base tags\<close>

text \<open>
  The steps of \<open>injectOverlayScript\<close> on the nested page: the removal leaves a base tag, no
  attribute is rewritten, there is no \<open>head\<close> and no \<open>html\<close> tag, so that the page is wrapped,
  and the script goes before the wrapper's \<open></body>\<close>.
\<close>

lemma step1: "replaceAll True baseTagRegex (\<lambda>pieces. []) nestedBaseHtml = evilBase"
  by (simp add: nestedBaseHtml_def baseTagRegex_def lowerCode_def isWhiteSpace_def evilBase_def)

lemma step2: "replaceAll True attributeRegex rewriteAttribute evilBase = evilBase"
  by (simp add: attributeRegex_def attributePrefixRegex_def lowerCode_def evilBase_def)

lemma step3a: "findMatch True headRegex [] evilBase = None"
  by (simp add: headRegex_def lowerCode_def evilBase_def)

lemma step3b: "findMatch True htmlRegex [] evilBase = None"
  by (simp add: htmlRegex_def lowerCode_def evilBase_def)

lemma step4:
  "findMatch False [Lit ''</body>''] [] (injectedHead @ evilBase @ ''</body></html>'') =
     Some (injectedHead @ evilBase, [''</body>''], ''</html>'')"
  by (simp add: injectedHead_def evilBase_def)

lemma expandReplacement_plain:
  "CHR ''$'' \<notin> set replacement \<Longrightarrow>
   expandReplacement replacement matched groups preceding following = replacement"
  by (induction replacement matched groups preceding following rule: expandReplacement.induct) auto

lemma overlay_no_dollar: "CHR ''$'' \<notin> set getOverlayScript"
  by (simp add: getOverlayScript_def)

lemma inject_nested:
  "injectOverlayScript nestedBaseHtml ''/'' servingState =
     injectedHead @ evilBase @ ''<script>'' @ getOverlayScript @ ''</script>'' @ [CHR 0x0A] @
     ''</body></html>''"
proof -
  have base: "''<base href='' @ [CHR 0x22] @ (''/wisp/'' @ orDefault (did servingState) ''unknown'' @ ''/'' @
      orDefault (currentSiteName servingState) ''site'' @ ''/'') @ [CHR 0x22] @ ''>'' =
      ''<base href='' @ [CHR 0x22] @ ''/wisp/did:plc:xyz/mysite/'' @ [CHR 0x22] @ ''>''"
    by (simp add: orDefault_def servingState_def falsy_def)
  have wrapped: "''<!DOCTYPE html><html><head>'' @ [CHR 0x0A] @ ''  '' @
      (''<base href='' @ [CHR 0x22] @ ''/wisp/did:plc:xyz/mysite/'' @ [CHR 0x22] @ ''>'') @ [CHR 0x0A] @
      ''</head><body>'' @ evilBase @ ''</body></html>'' = injectedHead @ evilBase @ ''</body></html>''"
    by (simp add: injectedHead_def)
  have plain: "expandReplacement ((''<script>'' @ getOverlayScript @ ''</script>'') @ [CHR 0x0A] @ ''</body>'')
      m g p f = (''<script>'' @ getOverlayScript @ ''</script>'') @ [CHR 0x0A] @ ''</body>''" for m g p f
    by (rule expandReplacement_plain) (simp add: overlay_no_dollar)
  have inc: "stringIncludes (injectedHead @ evilBase @ ''</body></html>'') ''</body>''"
    by (simp only: stringIncludes_def step4) simp
  have rep: "replaceFirst False [Lit ''</body>''] noGroups r (injectedHead @ evilBase @ ''</body></html>'') =
      (injectedHead @ evilBase) @
      expandReplacement r ''</body>'' [] (injectedHead @ evilBase) ''</html>'' @ ''</html>''" for r
    by (simp only: replaceFirst_def step4 noGroups_def) simp
  have "injectOverlayScript nestedBaseHtml ''/'' servingState =
      (injectedHead @ evilBase) @
      ((''<script>'' @ getOverlayScript @ ''</script>'') @ [CHR 0x0A] @ ''</body>'') @ ''</html>''"
    unfolding injectOverlayScript_def Let_def base step1 step2 wrapped
    by (simp only: step3a step3b inc rep plain if_True if_False not_False_eq_True not_not
        refl simp_thms)
  then show ?thesis by simp
qed

text \<open>
  A text with no \<open><\<close> followed by the letter b has no base tag; the script and the tail of the
  wrapper are such a text.
\<close>

lemma lowerCode_lt: "lowerCode c = lowerCode CHR ''<'' \<longleftrightarrow> c = CHR ''<''"
proof
  assume "lowerCode c = lowerCode CHR ''<''"
  then have "(of_char c :: nat) = of_char CHR ''<''"
    by (simp add: lowerCode_def split: if_splits)
  then show "c = CHR ''<''" by (simp only: of_char_eq_iff)
qed simp

lemma lowerCode_b: "lowerCode CHR ''b'' = 98"
  by (simp add: lowerCode_def)

lemma noTagStart_no_match:
  "noTagStart s \<Longrightarrow> matchItems True baseTagRegex s = None"
  by (cases s rule: noTagStart.cases)
    (auto simp: baseTagRegex_def lowerCode_b dest: lowerCode_lt [THEN iffD1, OF sym])

lemma noTagStart_tl: "noTagStart (c # cs) \<Longrightarrow> noTagStart cs"
  by (cases cs) auto

lemma noTagStart_count: "noTagStart s \<Longrightarrow> countMatches True baseTagRegex s = 0"
proof (induction s)
  case Nil
  then show ?case by (simp add: baseTagRegex_def)
next
  case (Cons c cs)
  from Cons.prems have "matchItems True baseTagRegex (c # cs) = None"
    by (rule noTagStart_no_match)
  with Cons.IH noTagStart_tl [OF Cons.prems] show ?case by simp
qed

lemma script_no_tag_start:
  "noTagStart (''<script>'' @ getOverlayScript @ ''</script>'' @ [CHR 0x0A] @ ''</body></html>'')"
  by (simp add: getOverlayScript_def lowerCode_def)


lemma head_two_tags:
  "countMatches True baseTagRegex (injectedHead @ evilBase @ rest) =
     2 + countMatches True baseTagRegex rest"
  by (simp add: injectedHead_def evilBase_def baseTagRegex_def lowerCode_def isWhiteSpace_def)

text \<open>
  Claim C4 (base-path uniqueness) at the page \<^verbatim>\<open><ba<base x>se href="/evil">\<close>, which has
  one base tag: the output of \<open>injectOverlayScript\<close> is the wrapper with the worker's base tag
  in its head, followed by the base tag that the removal put together, and so has two base tags.
\<close>

theorem injectOverlayScript_two_base_tags:
  "countMatches True baseTagRegex nestedBaseHtml = 1 \<and>
   injectOverlayScript nestedBaseHtml ''/'' servingState =
     injectedHead @ evilBase @ ''<script>'' @ getOverlayScript @ ''</script>'' @ [CHR 0x0A] @
     ''</body></html>'' \<and>
   countMatches True baseTagRegex (injectOverlayScript nestedBaseHtml ''/'' servingState) = 2"
proof -
  have "countMatches True baseTagRegex nestedBaseHtml = 1"
    by (simp add: nestedBaseHtml_def baseTagRegex_def lowerCode_def isWhiteSpace_def)
  moreover have "countMatches True baseTagRegex
      (injectedHead @ evilBase @ ''<script>'' @ getOverlayScript @ ''</script>'' @ [CHR 0x0A] @
       ''</body></html>'') = 2"
    by (simp only: head_two_tags noTagStart_count [OF script_no_tag_start])
  ultimately show ?thesis by (simp only: inject_nested)
qed
section \<open>Merging directories: names that are inherited\<close>

lemma merge_depth_mono:
  "mergeLoop depth result directories = Some v \<Longrightarrow>
     mergeLoop (depth + k) result directories = Some v"
  "mergeEntries depth resultDirs entries = Some w \<Longrightarrow>
     mergeEntries (depth + k) resultDirs entries = Some w"
proof (induction depth result directories and depth resultDirs entries
    arbitrary: v and w rule: mergeLoop_mergeEntries.induct)
  case (1 depth result)
  then show ?case by simp
next
  case (2 depth result dir directories)
  then show ?case
    by (auto simp: Let_def split: if_splits option.splits)
next
  case (3 depth resultDirs)
  then show ?case by simp
next
  case (4 depth resultDirs name subDir entries)
  show ?case
  proof (cases "truthy (getProp resultDirs name)")
    case False
    with "4.prems" have "mergeEntries depth (setProp resultDirs name subDir) entries = Some w"
      by simp
    with False have "mergeEntries (depth + k) (setProp resultDirs name subDir) entries = Some w"
      by (rule "4.IH"(3))
    with False show ?thesis by simp
  next
    case True
    with "4.prems" obtain deeper merged where d: "depth = Suc deeper"
      and m: "mergeLoop deeper emptyObject [getProp resultDirs name, subDir] = Some merged"
      and r: "mergeEntries depth (setProp resultDirs name merged) entries = Some w"
      by (auto simp del: mergeLoop.simps split: nat.splits option.splits)
    from True d m
    have "mergeLoop (deeper + k) emptyObject [getProp resultDirs name, subDir] = Some merged"
      by (rule "4.IH"(1))
    moreover from True d m r
    have "mergeEntries (depth + k) (setProp resultDirs name merged) entries = Some w"
      by (rule "4.IH"(2))
    ultimately show ?thesis using True d by (simp del: mergeLoop.simps)
  qed
qed

lemma mergeDirectories_deeper:
  "mergeDirectories depth directories = Some v \<Longrightarrow>
   mergeDirectories (depth + k) directories = Some v"
  by (simp add: mergeDirectories_def merge_depth_mono)

lemmas merge_evaluation = mergeDirectories_def emptyObject_def plainObject_def wispFile_def
  truthy_def getProp_def setProp_def spread_def ownEntries_def orderedEntries_def
  isArrayIndex_def isObject_def objectPrototypeMethods_def isDigit_def
  treeA_def treeB_def treeC_def protoSubtree_def filesSubtree_def

text \<open>
  The merges of the example trees. Of \<open>treeA\<close> the merge keeps no directory: the read of
  \<open>__proto__\<close> in the fresh \<open>result.dirs\<close> yields \<open>Object.prototype\<close>, so the directory is
  merged with it, and the assignment makes the merged directory the prototype of
  \<open>result.dirs\<close>. When \<open>treeC\<close> follows, the read of \<open>files\<close> in \<open>result.dirs\<close> yields the
  property \<open>files\<close> of that prototype, the object of the files of the directory
  \<open>__proto__\<close>, which is merged with the directory \<open>files\<close> of \<open>treeC\<close> as if it were a
  directory.
\<close>

lemma merge_A:
  "mergeDirectories 0 [treeA] = None"
  "mergeDirectories 1 [treeA] = Some (plainObject [(''dirs'', JsObject [] protoSubtree)])"
  by (simp_all add: merge_evaluation)

lemma merge_A_B:
  "mergeDirectories 1 [treeA, treeB] = Some (plainObject [(''dirs'', JsObject [] protoSubtree)])"
  by (simp add: merge_evaluation)

lemma merge_AB_C:
  "mergeDirectories 0 [plainObject [(''dirs'', JsObject [] protoSubtree)], treeC] = Some treeC"
  by (simp add: merge_evaluation)

lemma merge_A_C:
  "mergeDirectories 1 [treeA, treeC] =
     Some (plainObject
       [(''dirs'',
         JsObject
           [(''files'',
             plainObject
               [(''files'', plainObject [(''cid'', JsString ''x''), (''g'', wispFile ''y'')])])]
           protoSubtree)])"
  by (simp add: merge_evaluation)

lemma merge_A_B_C:
  "mergeDirectories 1 [treeA, treeB, treeC] =
     Some (plainObject
       [(''dirs'',
         JsObject
           [(''files'',
             plainObject
               [(''files'', plainObject [(''cid'', JsString ''x''), (''g'', wispFile ''y'')])])]
           protoSubtree)])"
  by (simp add: merge_evaluation)

lemma merge_files_subtree:
  "mergeDirectories 0 [filesSubtree] = Some filesSubtree"
  by (simp add: merge_evaluation)

text \<open>
  Claim C2 at the trees \<open>treeA\<close> and \<open>treeC\<close>, for every bound of at least one on the
  nesting. The first tree has the subdirectory \<open>__proto__\<close> and the second the
  subdirectory \<open>files\<close>. The merged tree has the subdirectory \<open>files\<close> only: the name
  \<open>__proto__\<close> is not among its subdirectories. Its subdirectory \<open>files\<close> is not the merge
  of the subtrees of that name, which is \<open>filesSubtree\<close> with the one file \<open>g\<close>: its files
  hold, besides \<open>g\<close>, the name \<open>cid\<close> with the string \<open>x\<close>, which is no file entry and
  which no tree has at that path.
\<close>

theorem mergeDirectories_loses_proto_directory:
  "mergeDirectories (Suc k) [treeA, treeC] =
     Some (plainObject
       [(''dirs'',
         JsObject
           [(''files'',
             plainObject
               [(''files'', plainObject [(''cid'', JsString ''x''), (''g'', wispFile ''y'')])])]
           protoSubtree)]) \<and>
   map fst (ownEntries (getProp treeA ''dirs'')) = [''__proto__''] \<and>
   map fst (ownEntries (getProp treeC ''dirs'')) = [''files''] \<and>
   map_option (\<lambda>merged. map fst (ownEntries (getProp merged ''dirs'')))
     (mergeDirectories (Suc k) [treeA, treeC]) = Some [''files''] \<and>
   getProp (getProp treeA ''dirs'') ''files'' = JsUndefined \<and>
   getProp (getProp treeC ''dirs'') ''files'' = filesSubtree \<and>
   mergeDirectories (Suc k) [filesSubtree] = Some filesSubtree \<and>
   map_option (\<lambda>merged. getProp (getProp merged ''dirs'') ''files'')
     (mergeDirectories (Suc k) [treeA, treeC]) =
     Some (plainObject
       [(''files'', plainObject [(''cid'', JsString ''x''), (''g'', wispFile ''y'')])])"
proof -
  have merged: "mergeDirectories (Suc k) [treeA, treeC] =
     Some (plainObject
       [(''dirs'',
         JsObject
           [(''files'',
             plainObject
               [(''files'', plainObject [(''cid'', JsString ''x''), (''g'', wispFile ''y'')])])]
           protoSubtree)])"
    using mergeDirectories_deeper [OF merge_A_C, of k] by simp
  have sub: "mergeDirectories (Suc k) [filesSubtree] = Some filesSubtree"
    using mergeDirectories_deeper [OF merge_files_subtree, of "Suc k"] by simp
  have names: "map fst (ownEntries (getProp treeA ''dirs'')) = [''__proto__'']"
    "map fst (ownEntries (getProp treeC ''dirs'')) = [''files'']"
    "getProp (getProp treeA ''dirs'') ''files'' = JsUndefined"
    "getProp (getProp treeC ''dirs'') ''files'' = filesSubtree"
    by (simp_all add: merge_evaluation)
  have reads: "map fst (ownEntries (getProp (plainObject
       [(''dirs'',
         JsObject
           [(''files'',
             plainObject
               [(''files'', plainObject [(''cid'', JsString ''x''), (''g'', wispFile ''y'')])])]
           protoSubtree)]) ''dirs'')) = [''files'']"
    "getProp (getProp (plainObject
       [(''dirs'',
         JsObject
           [(''files'',
             plainObject
               [(''files'', plainObject [(''cid'', JsString ''x''), (''g'', wispFile ''y'')])])]
           protoSubtree)]) ''dirs'') ''files'' =
     plainObject [(''files'', plainObject [(''cid'', JsString ''x''), (''g'', wispFile ''y'')])]"
    by (simp_all add: merge_evaluation)
  from sub names reads show ?thesis unfolding merged by simp
qed

text \<open>
  Claim C3 at the trees \<open>treeA\<close>, \<open>treeB\<close> and \<open>treeC\<close>, for every bound of at least one on
  the nesting. Merged in one call, the subdirectory \<open>files\<close> of the result holds the names
  \<open>cid\<close> and \<open>g\<close>. Merged as \<open>mergeDirectories(mergeDirectories(A, B), C)\<close>, the inner result
  has the directory of \<open>treeA\<close> as the prototype of its \<open>dirs\<close> only, which
  \<open>Object.entries\<close> does not list, so the outer call returns \<open>treeC\<close>. The two results
  differ.
\<close>

theorem mergeDirectories_regrouping_differs:
  "mergeDirectories (Suc k) [treeA, treeB, treeC] =
     Some (plainObject
       [(''dirs'',
         JsObject
           [(''files'',
             plainObject
               [(''files'', plainObject [(''cid'', JsString ''x''), (''g'', wispFile ''y'')])])]
           protoSubtree)]) \<and>
   mergeDirectories (Suc k) [treeA, treeB] =
     Some (plainObject [(''dirs'', JsObject [] protoSubtree)]) \<and>
   Option.bind (mergeDirectories (Suc k) [treeA, treeB])
     (\<lambda>mergedAB. mergeDirectories (Suc k) [mergedAB, treeC]) = Some treeC \<and>
   mergeDirectories (Suc k) [treeA, treeB, treeC] \<noteq>
     Option.bind (mergeDirectories (Suc k) [treeA, treeB])
       (\<lambda>mergedAB. mergeDirectories (Suc k) [mergedAB, treeC])"
proof -
  have abc: "mergeDirectories (Suc k) [treeA, treeB, treeC] =
     Some (plainObject
       [(''dirs'',
         JsObject
           [(''files'',
             plainObject
               [(''files'', plainObject [(''cid'', JsString ''x''), (''g'', wispFile ''y'')])])]
           protoSubtree)])"
    using mergeDirectories_deeper [OF merge_A_B_C, of k] by simp
  have ab: "mergeDirectories (Suc k) [treeA, treeB] =
     Some (plainObject [(''dirs'', JsObject [] protoSubtree)])"
    using mergeDirectories_deeper [OF merge_A_B, of k] by simp
  have ab_c: "mergeDirectories (Suc k) [plainObject [(''dirs'', JsObject [] protoSubtree)], treeC] =
     Some treeC"
    using mergeDirectories_deeper [OF merge_AB_C, of "Suc k"] by simp
  have differ: "plainObject
       [(''dirs'',
         JsObject
           [(''files'',
             plainObject
               [(''files'', plainObject [(''cid'', JsString ''x''), (''g'', wispFile ''y'')])])]
           protoSubtree)] \<noteq> treeC"
    by (simp add: treeC_def plainObject_def protoSubtree_def)
  from differ show ?thesis unfolding abc ab by (simp add: ab_c)
qed
end
